theory Spec2Isabelle
  imports Main "HOL-Library.Sublist"
begin

section \<open>Python strings\<close>

text \<open>
  A Python \<^verbatim>\<open>str\<close> is a sequence of Unicode code points; it is modelled as a list of
  natural numbers, one per code point. \<open>u\<close> turns an ASCII literal into such a list.
\<close>

type_synonym pystr = "nat list"

definition u :: "string \<Rightarrow> pystr" where
  "u s = map of_char s"

text \<open>\<^verbatim>\<open>str.isspace\<close> for one code point: the white-space set used by \<^verbatim>\<open>str.strip()\<close>.\<close>

definition py_isspace :: "nat \<Rightarrow> bool" where
  "py_isspace c \<longleftrightarrow>
     (9 \<le> c \<and> c \<le> 13) \<or> (28 \<le> c \<and> c \<le> 32) \<or> c = 133 \<or> c = 160 \<or> c = 5760 \<or>
     (8192 \<le> c \<and> c \<le> 8202) \<or> c = 8232 \<or> c = 8233 \<or> c = 8239 \<or> c = 8287 \<or> c = 12288"

text \<open>\<^verbatim>\<open>s.strip()\<close>: white space is removed at both ends.\<close>

definition py_strip :: "pystr \<Rightarrow> pystr" where
  "py_strip s = rev (dropWhile py_isspace (rev (dropWhile py_isspace s)))"

text \<open>
  \<^verbatim>\<open>s.replace(old, new)\<close>: every non-overlapping occurrence of \<open>old\<close>, found from the left, is
  replaced. For an empty \<open>old\<close> Python puts \<open>new\<close> before every character and at the end.
\<close>

function py_replace :: "pystr \<Rightarrow> pystr \<Rightarrow> pystr \<Rightarrow> pystr" where
  "py_replace old new [] = (if old = [] then new else [])"
| "py_replace old new (c # cs) =
     (if old = [] then new @ c # py_replace old new cs
      else if prefix old (c # cs) then new @ py_replace old new (drop (length old) (c # cs))
      else c # py_replace old new cs)"
  by pat_completeness auto
termination
  by (relation "measure (\<lambda>(old, new, s). length s)") auto

text \<open>\<^verbatim>\<open>p in s\<close> for strings: \<open>p\<close> occurs in \<open>s\<close> as a substring.\<close>

fun contains :: "pystr \<Rightarrow> pystr \<Rightarrow> bool" where
  "contains p [] = (p = [])"
| "contains p (c # cs) = (prefix p (c # cs) \<or> contains p cs)"

section \<open>Response sanitization\<close>

text \<open>
  \<^verbatim>\<open>cleaned_response_text = response.text.strip().replace("```json", "").replace("```", "").strip()\<close>
\<close>

definition fence :: pystr where
  "fence = u ''```''"

definition fence_json :: pystr where
  "fence_json = u ''```json''"

definition cleaned_response_text :: "pystr \<Rightarrow> pystr" where
  "cleaned_response_text t =
     py_strip (py_replace fence [] (py_replace fence_json [] (py_strip t)))"

section \<open>JSON values and json.loads\<close>

text \<open>
  The value \<^verbatim>\<open>json.loads\<close> returns. A number keeps its literal (so equal values of the
  model are equal Python values); \<^verbatim>\<open>NaN\<close>, \<^verbatim>\<open>Infinity\<close> and \<^verbatim>\<open>-Infinity\<close>, which Python
  accepts, are numbers. An object is a \<^verbatim>\<open>dict\<close>: an association list with distinct keys in
  insertion order. The limits of the interpreter (recursion depth, digits of an integer) are
  not part of the model.
\<close>

datatype json =
    JNull
  | JBool bool
  | JNumber pystr
  | JString pystr
  | JArray "json list"
  | JObject "(pystr \<times> json) list"

datatype token = TLBrace | TRBrace | TLBracket | TRBracket | TColon | TComma | TAtom json

definition json_ws :: "nat \<Rightarrow> bool" where
  "json_ws c \<longleftrightarrow> c = 32 \<or> c = 9 \<or> c = 10 \<or> c = 13"

definition is_digit :: "nat \<Rightarrow> bool" where
  "is_digit c \<longleftrightarrow> 48 \<le> c \<and> c \<le> 57"

definition hex_val :: "nat \<Rightarrow> nat option" where
  "hex_val c =
     (if is_digit c then Some (c - 48)
      else if 97 \<le> c \<and> c \<le> 102 then Some (c - 87)
      else if 65 \<le> c \<and> c \<le> 70 then Some (c - 55)
      else None)"

definition hex4 :: "pystr \<Rightarrow> nat option" where
  "hex4 s =
     (if length s < 4 then None
      else map_option (foldl (\<lambda>acc d. acc * 16 + d) 0) (those (map hex_val (take 4 s))))"

definition simple_escape :: "nat \<Rightarrow> nat option" where
  "simple_escape e =
     (if e = 34 then Some 34
      else if e = 92 then Some 92
      else if e = 47 then Some 47
      else if e = 98 then Some 8
      else if e = 102 then Some 12
      else if e = 110 then Some 10
      else if e = 114 then Some 13
      else if e = 116 then Some 9
      else None)"

text \<open>
  The escape after a backslash: the decoded code point and the number of characters read
  after the backslash. A high surrogate followed by an escaped low surrogate is joined.
\<close>

definition scan_escape :: "pystr \<Rightarrow> (nat \<times> nat) option" where
  "scan_escape s =
     (case s of
        [] \<Rightarrow> None
      | e # es \<Rightarrow>
          if e = 117 then
            (case hex4 es of
               None \<Rightarrow> None
             | Some c \<Rightarrow>
                 if 55296 \<le> c \<and> c \<le> 56319 \<and> take 2 (drop 4 es) = [92, 117] then
                   (case hex4 (drop 6 es) of
                      None \<Rightarrow> None
                    | Some c2 \<Rightarrow>
                        if 56320 \<le> c2 \<and> c2 \<le> 57343
                        then Some (65536 + (c - 55296) * 1024 + (c2 - 56320), 11)
                        else Some (c, 5))
                 else Some (c, 5))
          else map_option (\<lambda>d. (d, 1)) (simple_escape e))"

text \<open>
  The string scanner, started after the opening quote: the decoded string and the number of
  characters read, closing quote included. Control characters are rejected (strict mode).
\<close>

function scanstring :: "pystr \<Rightarrow> (pystr \<times> nat) option" where
  "scanstring [] = None"
| "scanstring (c # cs) =
     (if c = 34 then Some ([], 1)
      else if c = 92 then
        (case scan_escape cs of
           None \<Rightarrow> None
         | Some (d, n) \<Rightarrow> map_option (\<lambda>(s, k). (d # s, Suc n + k)) (scanstring (drop n cs)))
      else if c < 32 then None
      else map_option (\<lambda>(s, k). (c # s, Suc k)) (scanstring cs))"
  by pat_completeness auto
termination
  by (relation "measure length") auto

text \<open>
  The number scanner, the regular expression
  \<^verbatim>\<open>(-?(?:0|[1-9][0-9]*))(\.[0-9]+)?([eE][-+]?[0-9]+)?\<close>: the literal matched and its length.
\<close>

definition scan_exponent :: "pystr \<Rightarrow> pystr" where
  "scan_exponent r =
     (case r of
        [] \<Rightarrow> []
      | e # es \<Rightarrow>
          if e = 101 \<or> e = 69 then
            (let sg = (if take 1 es = [43] \<or> take 1 es = [45] then take 1 es else []);
                 ds = takeWhile is_digit (drop (length sg) es)
             in if ds = [] then [] else e # sg @ ds)
          else [])"

definition scan_fraction :: "pystr \<Rightarrow> pystr" where
  "scan_fraction r =
     (case r of
        [] \<Rightarrow> []
      | p # qs \<Rightarrow>
          if p = 46 \<and> takeWhile is_digit qs \<noteq> [] then p # takeWhile is_digit qs else [])"

definition scan_integer :: "pystr \<Rightarrow> pystr option" where
  "scan_integer r =
     (case r of
        [] \<Rightarrow> None
      | d # ds \<Rightarrow>
          if \<not> is_digit d then None
          else Some (if d = 48 then [48] else d # takeWhile is_digit ds))"

definition scan_tail :: "pystr \<Rightarrow> pystr" where
  "scan_tail r = (let frac = scan_fraction r in frac @ scan_exponent (drop (length frac) r))"

definition scan_number :: "pystr \<Rightarrow> (pystr \<times> nat) option" where
  "scan_number s =
     (let sign = (if take 1 s = [45] then [45] else []);
          r = drop (length sign) s
      in case scan_integer r of
           None \<Rightarrow> None
         | Some ipart \<Rightarrow>
             (let lit = sign @ ipart @ scan_tail (drop (length ipart) r)
              in Some (lit, length lit)))"

definition scan_literal :: "pystr \<Rightarrow> (json \<times> nat) option" where
  "scan_literal s =
     (if prefix (u ''null'') s then Some (JNull, 4)
      else if prefix (u ''true'') s then Some (JBool True, 4)
      else if prefix (u ''false'') s then Some (JBool False, 5)
      else if prefix (u ''NaN'') s then Some (JNumber (u ''NaN''), 3)
      else if prefix (u ''Infinity'') s then Some (JNumber (u ''Infinity''), 8)
      else if prefix (u ''-Infinity'') s then Some (JNumber (u ''-Infinity''), 9)
      else None)"

definition punctuation :: "nat \<Rightarrow> token option" where
  "punctuation c =
     (if c = 123 then Some TLBrace
      else if c = 125 then Some TRBrace
      else if c = 91 then Some TLBracket
      else if c = 93 then Some TRBracket
      else if c = 58 then Some TColon
      else if c = 44 then Some TComma
      else None)"

text \<open>
  The decoder reads the text as a sequence of tokens with white space (space, tab, line feed,
  carriage return) allowed between any two of them. A scanner that read \<open>n\<close> characters of
  \<open>c # cs\<close> leaves \<open>drop (n - 1) cs\<close>.
\<close>

function lex :: "pystr \<Rightarrow> token list option" where
  "lex [] = Some []"
| "lex (c # cs) =
     (if json_ws c then lex cs
      else case punctuation c of
        Some t \<Rightarrow> map_option (Cons t) (lex cs)
      | None \<Rightarrow>
          if c = 34 then
            (case scanstring cs of
               None \<Rightarrow> None
             | Some (s, n) \<Rightarrow> map_option (Cons (TAtom (JString s))) (lex (drop n cs)))
          else
            (case scan_literal (c # cs) of
               Some (v, n) \<Rightarrow> map_option (Cons (TAtom v)) (lex (drop (n - 1) cs))
             | None \<Rightarrow>
                 (case scan_number (c # cs) of
                    None \<Rightarrow> None
                  | Some (lit, n) \<Rightarrow>
                      map_option (Cons (TAtom (JNumber lit))) (lex (drop (n - 1) cs)))))"
  by pat_completeness auto
termination
  by (relation "measure length") auto

text \<open>\<^verbatim>\<open>d[k] = v\<close> on a \<^verbatim>\<open>dict\<close>: a repeated key keeps its place and takes the new value.\<close>

fun dict_set :: "(pystr \<times> json) list \<Rightarrow> pystr \<Rightarrow> json \<Rightarrow> (pystr \<times> json) list" where
  "dict_set [] k v = [(k, v)]"
| "dict_set ((k', v') # kvs) k v =
     (if k' = k then (k, v) # kvs else (k', v') # dict_set kvs k v)"

text \<open>
  The parser returns the value and the number of tokens read. \<open>parse_array\<close> and
  \<open>parse_object\<close> run after the opening bracket of a non-empty container, with the elements
  read so far.
\<close>

function parse_value :: "token list \<Rightarrow> (json \<times> nat) option"
  and parse_array :: "json list \<Rightarrow> token list \<Rightarrow> (json \<times> nat) option"
  and parse_object :: "(pystr \<times> json) list \<Rightarrow> token list \<Rightarrow> (json \<times> nat) option"
where
  "parse_value [] = None"
| "parse_value (t # ts) =
     (case t of
        TAtom v \<Rightarrow> Some (v, 1)
      | TLBracket \<Rightarrow>
          (case ts of
             TRBracket # _ \<Rightarrow> Some (JArray [], 2)
           | _ \<Rightarrow> map_option (\<lambda>(v, n). (v, Suc n)) (parse_array [] ts))
      | TLBrace \<Rightarrow>
          (case ts of
             TRBrace # _ \<Rightarrow> Some (JObject [], 2)
           | _ \<Rightarrow> map_option (\<lambda>(v, n). (v, Suc n)) (parse_object [] ts))
      | _ \<Rightarrow> None)"
| "parse_array acc [] = None"
| "parse_array acc (t # ts) =
     (case parse_value (t # ts) of
        None \<Rightarrow> None
      | Some (v, n) \<Rightarrow>
          (case drop n (t # ts) of
             TRBracket # _ \<Rightarrow> Some (JArray (acc @ [v]), Suc n)
           | TComma # _ \<Rightarrow>
               map_option (\<lambda>(a, m). (a, Suc n + m))
                 (parse_array (acc @ [v]) (drop n ts))
           | _ \<Rightarrow> None))"
| "parse_object acc [] = None"
| "parse_object acc (t # ts) =
     (case t of
        TAtom (JString k) \<Rightarrow>
          (case ts of
             TColon # ts' \<Rightarrow>
               (case parse_value ts' of
                  None \<Rightarrow> None
                | Some (v, n) \<Rightarrow>
                    (case drop n ts' of
                       TRBrace # _ \<Rightarrow> Some (JObject (dict_set acc k v), n + 3)
                     | TComma # _ \<Rightarrow>
                         map_option (\<lambda>(a, m). (a, n + 3 + m))
                           (parse_object (dict_set acc k v) (drop (Suc n) ts'))
                     | _ \<Rightarrow> None))
           | _ \<Rightarrow> None)
      | _ \<Rightarrow> None)"
  by pat_completeness auto
termination
  by (relation "measure (\<lambda>x. case x of
        Inl ts \<Rightarrow> 2 * length ts
      | Inr (Inl (acc, ts)) \<Rightarrow> 2 * length ts + 1
      | Inr (Inr (acc, ts)) \<Rightarrow> 2 * length ts + 1)") auto

text \<open>\<^verbatim>\<open>json.loads\<close>: one value, and nothing but white space after it; \<open>None\<close> is the
  \<^verbatim>\<open>JSONDecodeError\<close>.\<close>

definition json_loads :: "pystr \<Rightarrow> json option" where
  "json_loads s =
     (case lex s of
        None \<Rightarrow> None
      | Some ts \<Rightarrow>
          (case parse_value ts of
             None \<Rightarrow> None
           | Some (v, n) \<Rightarrow> if n = length ts then Some v else None))"

section \<open>Pydantic models\<close>

record AnalysisRequest =
  address :: pystr

record ReraListing =
  project_name :: pystr
  developer :: pystr
  details :: pystr
  source_url :: pystr

record ReraResponse =
  listings :: "ReraListing list"

text \<open>
  The handler runs on Pydantic v1 and v2 alike (it tries \<^verbatim>\<open>schema_json\<close> and falls back to
  \<^verbatim>\<open>model_json_schema\<close>). What the two versions do differently is a parameter of the model:
  \<open>str_lax\<close> is the coercion of a value that is not a string into a \<^verbatim>\<open>str\<close> field (v1 turns
  numbers into strings, v2 refuses them), \<open>dict_lax\<close> the coercion of a value that is not a
  \<^verbatim>\<open>dict\<close> into the input of a model (v1 tries \<^verbatim>\<open>dict(value)\<close>), and \<open>schema_text\<close> the JSON
  schema of \<^verbatim>\<open>ReraResponse\<close> as the library prints it. Fields that the model does not declare
  are ignored (the default configuration of both versions), with one exception:
  \<open>init_self_kwarg\<close> says that the constructor of a model names its own first parameter
  \<^verbatim>\<open>__pydantic_self__\<close> (v1), so that a key of that name cannot be passed to it.
  \<open>report_serialisable\<close> says of a request body whether the framework can serialise its
  report of the validation errors: a v1 report carries no input and always can be, a v2
  report repeats the offending input and cannot be when that holds a number that is not
  finite or a string with a lone surrogate.
\<close>

record pydantic =
  str_lax :: "json \<Rightarrow> pystr option"
  dict_lax :: "json \<Rightarrow> (pystr \<times> json) list option"
  schema_text :: pystr
  init_self_kwarg :: bool
  report_serialisable :: "json \<Rightarrow> bool"

text \<open>\<^verbatim>\<open>Model(**kvs)\<close> is a \<^verbatim>\<open>TypeError\<close> when a key is the name of the constructor's own
  parameter.\<close>

definition kwarg_clash :: "pydantic \<Rightarrow> (pystr \<times> json) list \<Rightarrow> bool" where
  "kwarg_clash P kvs \<longleftrightarrow> init_self_kwarg P \<and> map_of kvs (u ''__pydantic_self__'') \<noteq> None"

definition str_validate :: "pydantic \<Rightarrow> json \<Rightarrow> pystr option" where
  "str_validate P v = (case v of JString s \<Rightarrow> Some s | _ \<Rightarrow> str_lax P v)"

definition as_mapping :: "pydantic \<Rightarrow> json \<Rightarrow> (pystr \<times> json) list option" where
  "as_mapping P v = (case v of JObject kvs \<Rightarrow> Some kvs | _ \<Rightarrow> dict_lax P v)"

definition required_str :: "pydantic \<Rightarrow> (pystr \<times> json) list \<Rightarrow> pystr \<Rightarrow> pystr option" where
  "required_str P kvs k = (case map_of kvs k of None \<Rightarrow> None | Some v \<Rightarrow> str_validate P v)"

definition AnalysisRequest_validate :: "pydantic \<Rightarrow> json \<Rightarrow> AnalysisRequest option" where
  "AnalysisRequest_validate P v =
     (case as_mapping P v of
        None \<Rightarrow> None
      | Some kvs \<Rightarrow>
          if kwarg_clash P kvs then None
          else
            (case required_str P kvs (u ''address'') of
               None \<Rightarrow> None
             | Some a \<Rightarrow> Some \<lparr>address = a\<rparr>))"

definition ReraListing_validate :: "pydantic \<Rightarrow> json \<Rightarrow> ReraListing option" where
  "ReraListing_validate P v =
     (case as_mapping P v of
        None \<Rightarrow> None
      | Some kvs \<Rightarrow>
          if kwarg_clash P kvs then None
          else
            (case required_str P kvs (u ''project_name'') of
               None \<Rightarrow> None
             | Some a \<Rightarrow>
                 (case required_str P kvs (u ''developer'') of
                    None \<Rightarrow> None
                  | Some b \<Rightarrow>
                      (case required_str P kvs (u ''details'') of
                         None \<Rightarrow> None
                       | Some c \<Rightarrow>
                           (case required_str P kvs (u ''source_url'') of
                              None \<Rightarrow> None
                            | Some d \<Rightarrow>
                                Some \<lparr>project_name = a, developer = b, details = c,
                                      source_url = d\<rparr>)))))"

section \<open>The analysis endpoint\<close>

datatype py_exception =
    RuntimeError pystr
  | JSONDecodeError
  | TypeError
  | ValidationError
  | SDKError pystr pystr

datatype http_exception = HTTPException nat pystr

text \<open>
  \<^verbatim>\<open>ReraResponse(**response_data)\<close>: the \<^verbatim>\<open>**\<close> needs a mapping and keys that the constructor
  can take (a \<^verbatim>\<open>TypeError\<close> otherwise), then the model validates the field \<^verbatim>\<open>listings\<close>, a
  list of listings.
\<close>

definition ReraResponse_init :: "pydantic \<Rightarrow> json \<Rightarrow> py_exception + ReraResponse" where
  "ReraResponse_init P response_data =
     (case response_data of
        JObject kvs \<Rightarrow>
          if kwarg_clash P kvs then Inl TypeError
          else
            (case map_of kvs (u ''listings'') of
               Some (JArray items) \<Rightarrow>
                 (case those (map (ReraListing_validate P) items) of
                    None \<Rightarrow> Inl ValidationError
                  | Some ls \<Rightarrow> Inr \<lparr>listings = ls\<rparr>)
             | _ \<Rightarrow> Inl ValidationError)
      | _ \<Rightarrow> Inl TypeError)"

text \<open>
  The process environment, and the generative model: \<^verbatim>\<open>model.generate_content(prompt)\<close>
  followed by \<^verbatim>\<open>response.text\<close> either raises an exception or gives the reply text. The
  exceptions are instances of \<^verbatim>\<open>Exception\<close>, which \<^verbatim>\<open>except Exception\<close> catches; interrupts
  and cancellation are not part of the model.
\<close>

type_synonym environ = "pystr \<rightharpoonup> pystr"

type_synonym generate_content = "pystr \<Rightarrow> py_exception + pystr"

text \<open>What the endpoint does besides answering: its log lines and the call of the model.\<close>

datatype event =
    LogReceived pystr
  | GenerateContent pystr
  | LogFound nat pystr
  | LogError py_exception
  | LogTimed pystr
  | LogRequest pystr pystr

definition lines :: "string list \<Rightarrow> pystr" where
  "lines ls = concat (map (\<lambda>l. u l @ [10]) ls)"

definition RERA_PROMPT_format :: "pystr \<Rightarrow> pystr \<Rightarrow> pystr" where
  "RERA_PROMPT_format addr schema =
     lines
      ['''',
       ''You are a real estate search assistant. Your task is to find RERA-approved residential property listings for a given location in India.'',
       '''',
       ''**Location to Search:**'']
     @ addr @
     lines
      ['''',
       '''',
       ''**Instructions:**'',
       ''1.  Perform a web search to find 3-5 RERA-approved residential projects or land listings currently available in or very near the specified location.'',
       ''2.  For each listing, extract the project name, the developer, a brief summary of details, and the source URL.'',
       ''3.  If you cannot find any RERA-approved listings, return an empty list.'',
       '''',
       ''**Output Format:**'',
       ''Your final output MUST be a single, valid JSON object that strictly conforms to this Pydantic schema. Do not include any other text or notes.'',
       '''']
     @ schema @ [10]"

definition error_detail :: pystr where
  "error_detail = u ''An error occurred while communicating with the AI model.''"

text \<open>The body of the \<^verbatim>\<open>try\<close> statement: the events, and the exception raised or the value returned.\<close>

definition try_block ::
  "pydantic \<Rightarrow> environ \<Rightarrow> generate_content \<Rightarrow> AnalysisRequest \<Rightarrow>
   event list \<times> (py_exception + ReraResponse)" where
  "try_block P env gen request =
     (if env (u ''GEMINI_API_KEY'') = None then
        ([], Inl (RuntimeError (u ''GEMINI_API_KEY environment variable not set.'')))
      else
        (let prompt = RERA_PROMPT_format (address request) (schema_text P) in
         case gen prompt of
           Inl e \<Rightarrow> ([GenerateContent prompt], Inl e)
         | Inr response_text \<Rightarrow>
             (case json_loads (cleaned_response_text response_text) of
                None \<Rightarrow> ([GenerateContent prompt], Inl JSONDecodeError)
              | Some response_data \<Rightarrow>
                  (case ReraResponse_init P response_data of
                     Inl e \<Rightarrow> ([GenerateContent prompt], Inl e)
                   | Inr validated_response \<Rightarrow>
                       ([GenerateContent prompt,
                         LogFound (length (listings validated_response)) (address request)],
                        Inr validated_response)))))"

text \<open>The handler: every exception of the \<^verbatim>\<open>try\<close> body is logged and replaced by one
  \<^verbatim>\<open>HTTPException\<close>.\<close>

definition find_rera_listings ::
  "pydantic \<Rightarrow> environ \<Rightarrow> generate_content \<Rightarrow> AnalysisRequest \<Rightarrow>
   event list \<times> (http_exception + ReraResponse)" where
  "find_rera_listings P env gen request =
     (case try_block P env gen request of
        (evs, Inr validated_response) \<Rightarrow>
          (LogReceived (address request) # evs, Inr validated_response)
      | (evs, Inl e) \<Rightarrow>
          (LogReceived (address request) # evs @ [LogError e],
           Inl (HTTPException 500 error_detail)))"

text \<open>The decorator \<^verbatim>\<open>timed\<close>: the duration is logged when the function returns; an exception
  passes through.\<close>

definition timed ::
  "pystr \<Rightarrow> event list \<times> (http_exception + 'a) \<Rightarrow> event list \<times> (http_exception + 'a)" where
  "timed name run =
     (case run of
        (evs, Inr result) \<Rightarrow> (evs @ [LogTimed name], Inr result)
      | (evs, Inl e) \<Rightarrow> (evs, Inl e))"

datatype content =
    Model ReraResponse
  | Detail pystr
  | RequestErrors
  | Status pystr
  | ServerError

record response =
  status_code :: nat
  content :: content

text \<open>
  A response body is sent as UTF-8: a string with a lone surrogate in it (the JSON escape
  \<^verbatim>\<open>\ud83d\<close> on its own gives one) cannot be encoded.
\<close>

definition encodable :: "pystr \<Rightarrow> bool" where
  "encodable s = list_all (\<lambda>c. \<not> (55296 \<le> c \<and> c \<le> 57343)) s"

definition listing_serialisable :: "ReraListing \<Rightarrow> bool" where
  "listing_serialisable l \<longleftrightarrow>
     encodable (project_name l) \<and> encodable (developer l) \<and> encodable (details l) \<and>
     encodable (source_url l)"

definition serialisable :: "ReraResponse \<Rightarrow> bool" where
  "serialisable r = list_all listing_serialisable (listings r)"

text \<open>What the server sends when an exception leaves the application: status 500 with the
  plain text \<^verbatim>\<open>Internal Server Error\<close>.\<close>

definition server_error :: response where
  "server_error = \<lparr>status_code = 500, content = ServerError\<rparr>"

text \<open>
  What the framework sends for the outcome of a handler: a returned model goes out with
  status 200, an \<^verbatim>\<open>HTTPException\<close> with its own status and detail. The model is serialised
  after the handler has returned, outside its \<^verbatim>\<open>try\<close> statement: when that fails, the
  exception leaves the application.
\<close>

definition respond :: "event list \<times> (http_exception + ReraResponse) \<Rightarrow> event list \<times> response" where
  "respond run =
     (case run of
        (evs, Inr validated_response) \<Rightarrow>
          if serialisable validated_response
          then (evs, \<lparr>status_code = 200, content = Model validated_response\<rparr>)
          else (evs, server_error)
      | (evs, Inl (HTTPException code detail)) \<Rightarrow>
          (evs, \<lparr>status_code = code, content = Detail detail\<rparr>))"

text \<open>The decorated handler, called on a request object and answered by the framework.\<close>

definition endpoint ::
  "pydantic \<Rightarrow> environ \<Rightarrow> generate_content \<Rightarrow> AnalysisRequest \<Rightarrow> event list \<times> response" where
  "endpoint P env gen request =
     respond (timed (u ''find_rera_listings'') (find_rera_listings P env gen request))"

text \<open>The timing middleware \<^verbatim>\<open>add_process_time_header\<close>: the request is logged when the
  application has answered; an exception passes through.\<close>

definition add_process_time_header ::
  "pystr \<Rightarrow> pystr \<Rightarrow> event list \<times> response \<Rightarrow> event list \<times> response" where
  "add_process_time_header method path run =
     (case run of
        (evs, r) \<Rightarrow> if content r = ServerError then (evs, r) else (evs @ [LogRequest method path], r))"

text \<open>
  The route \<^verbatim>\<open>POST /api/find-rera-listings\<close> on a JSON body. The framework validates the body
  against \<^verbatim>\<open>AnalysisRequest\<close> before it calls the handler; when that fails it answers 422
  itself with a report of the errors, and when the report cannot be serialised the
  exception leaves the application.
\<close>

definition post_find_rera_listings ::
  "pydantic \<Rightarrow> environ \<Rightarrow> generate_content \<Rightarrow> json \<Rightarrow> event list \<times> response" where
  "post_find_rera_listings P env gen body =
     add_process_time_header (u ''POST'') (u ''/api/find-rera-listings'')
       (case AnalysisRequest_validate P body of
          None \<Rightarrow>
            if report_serialisable P body
            then ([], \<lparr>status_code = 422, content = RequestErrors\<rparr>)
            else ([], server_error)
        | Some request \<Rightarrow> endpoint P env gen request)"


text \<open>
  Start-up is the import of the module: its statements run in order, each on the
  application built so far, and any of them could raise. \<^verbatim>\<open>FastAPI(...)\<close> makes the
  application, the two middlewares are added, logging is configured, and the decorators
  \<^verbatim>\<open>@app.post\<close> and \<^verbatim>\<open>@app.get\<close> register the two routes. None of the statements reads the
  environment: \<^verbatim>\<open>os.environ\<close> is read in the body of the handler only.
\<close>

record application =
  title :: pystr
  version :: pystr
  user_middleware :: "pystr list"
  routes :: "(pystr \<times> pystr) list"
  logging_configured :: bool













text \<open>The JSON of a response body, serialised through \<^verbatim>\<open>response_model=ReraResponse\<close>.\<close>

definition ReraListing_json :: "ReraListing \<Rightarrow> json" where
  "ReraListing_json l =
     JObject
      [(u ''project_name'', JString (project_name l)),
       (u ''developer'', JString (developer l)),
       (u ''details'', JString (details l)),
       (u ''source_url'', JString (source_url l))]"

definition ReraResponse_json :: "ReraResponse \<Rightarrow> json" where
  "ReraResponse_json r = JObject [(u ''listings'', JArray (map ReraListing_json (listings r)))]"

definition is_generate :: "event \<Rightarrow> bool" where
  "is_generate e = (case e of GenerateContent _ \<Rightarrow> True | _ \<Rightarrow> False)"

section \<open>The client\<close>

text \<open>
  The React state of \<^verbatim>\<open>HomePage\<close> that \<^verbatim>\<open>handleAnalyze\<close> reads and writes. TypeScript types are
  erased at run time: \<^verbatim>\<open>listings\<close> holds whatever \<^verbatim>\<open>data.listings\<close> was, \<^verbatim>\<open>undefined\<close> included.
\<close>

datatype jsval = Undefined | Value json

record ui_state =
  selectedPlace :: pystr
  isAnalyzing :: bool
  listings_state :: jsval
  error_state :: "pystr option"

record fetch_request =
  url :: pystr
  http_method :: pystr
  content_type :: pystr
  json_body :: json

text \<open>How \<^verbatim>\<open>fetch\<close> settles: it rejects, or it resolves to a response with its \<^verbatim>\<open>ok\<close> flag and
  a body that \<^verbatim>\<open>response.json()\<close> parses (\<open>None\<close>: the body is not JSON).\<close>

datatype fetch_outcome = NetworkError | Response bool "json option"

datatype ui_event = Alert pystr | Fetch fetch_request | ConsoleError

definition BACKEND_URL :: pystr where
  "BACKEND_URL =
     u ''https://geov-backend-service-688850732364.asia-south1.run.app/api/find-rera-listings''"

definition fetch_failed_message :: pystr where
  "fetch_failed_message = u ''Failed to fetch listings. Please check the backend and try again.''"

definition analyze_request :: "ui_state \<Rightarrow> fetch_request" where
  "analyze_request st =
     \<lparr>url = BACKEND_URL, http_method = u ''POST'', content_type = u ''application/json'',
      json_body = JObject [(u ''address'', JString (selectedPlace st))]\<rparr>"

text \<open>\<^verbatim>\<open>data.listings\<close>: a \<^verbatim>\<open>TypeError\<close> (\<open>None\<close>) on \<^verbatim>\<open>null\<close>, \<^verbatim>\<open>undefined\<close> when there is no such
  property.\<close>

definition get_listings :: "json \<Rightarrow> jsval option" where
  "get_listings data =
     (case data of
        JNull \<Rightarrow> None
      | JObject kvs \<Rightarrow>
          Some (case map_of kvs (u ''listings'') of None \<Rightarrow> Undefined | Some v \<Rightarrow> Value v)
      | _ \<Rightarrow> Some Undefined)"

text \<open>\<^verbatim>\<open>handleAnalyze\<close> up to the \<^verbatim>\<open>await\<close> of \<^verbatim>\<open>fetch\<close>.\<close>

definition handleAnalyze_begin :: "ui_state \<Rightarrow> ui_event list \<times> ui_state" where
  "handleAnalyze_begin st =
     (if selectedPlace st = [] then ([Alert (u ''Please select a location first.'')], st)
      else
        ([Fetch (analyze_request st)],
         st\<lparr>isAnalyzing := True, error_state := None, listings_state := Value (JArray [])\<rparr>))"

text \<open>The \<^verbatim>\<open>catch\<close> and \<^verbatim>\<open>finally\<close> blocks after a failure in the \<^verbatim>\<open>try\<close> block.\<close>

definition catch_finally :: "ui_state \<Rightarrow> ui_event list \<times> ui_state" where
  "catch_finally st =
     ([ConsoleError], st\<lparr>error_state := Some fetch_failed_message, isAnalyzing := False\<rparr>)"

text \<open>\<^verbatim>\<open>handleAnalyze\<close> from the settlement of \<^verbatim>\<open>fetch\<close> on.\<close>

definition handleAnalyze_settle :: "fetch_outcome \<Rightarrow> ui_state \<Rightarrow> ui_event list \<times> ui_state" where
  "handleAnalyze_settle outcome st =
     (case outcome of
        NetworkError \<Rightarrow> catch_finally st
      | Response ok body \<Rightarrow>
          if \<not> ok then catch_finally st
          else
            (case body of
               None \<Rightarrow> catch_finally st
             | Some data \<Rightarrow>
                 (case get_listings data of
                    None \<Rightarrow> catch_finally st
                  | Some l \<Rightarrow> ([], st\<lparr>listings_state := l, isAnalyzing := False\<rparr>))))"

text \<open>One invocation of \<^verbatim>\<open>handleAnalyze\<close>, with the network as a function of the request and
  no other handler running between the request and its settlement.\<close>

definition handleAnalyze ::
  "(fetch_request \<Rightarrow> fetch_outcome) \<Rightarrow> ui_state \<Rightarrow> ui_event list \<times> ui_state" where
  "handleAnalyze net st =
     (if selectedPlace st = [] then handleAnalyze_begin st
      else
        (case handleAnalyze_begin st of
           (evs, busy) \<Rightarrow>
             (case handleAnalyze_settle (net (analyze_request st)) busy of
                (evs', final) \<Rightarrow> (evs @ evs', final))))"

definition is_fetch :: "ui_event \<Rightarrow> bool" where
  "is_fetch e = (case e of Fetch _ \<Rightarrow> True | _ \<Rightarrow> False)"

text \<open>The number of backticks a text starts with.\<close>

definition lead :: "pystr \<Rightarrow> nat" where
  "lead s = length (takeWhile (\<lambda>c. c = 96) s)"

section \<open>Predicates on replies and requests\<close>

text \<open>The fields that \<^verbatim>\<open>ReraListing\<close> declares, all of them required.\<close>

definition required_fields :: "pystr list" where
  "required_fields = [u ''project_name'', u ''developer'', u ''details'', u ''source_url'']"

text \<open>A listing object without one of the required fields; a reply without the field
  \<^verbatim>\<open>listings\<close> (an object without that key, or no object at all) or with such a listing
  object in it.\<close>

definition listing_lacks_field :: "json \<Rightarrow> bool" where
  "listing_lacks_field item =
     (case item of
        JObject kvs \<Rightarrow> list_ex (\<lambda>k. map_of kvs k = None) required_fields
      | _ \<Rightarrow> False)"

definition missing_required_field :: "json \<Rightarrow> bool" where
  "missing_required_field data =
     (case data of
        JObject kvs \<Rightarrow>
          (case map_of kvs (u ''listings'') of
             None \<Rightarrow> True
           | Some (JArray items) \<Rightarrow> list_ex listing_lacks_field items
           | Some _ \<Rightarrow> False)
      | _ \<Rightarrow> True)"

text \<open>A reply with every required field present and a string, whatever else it holds.\<close>

definition is_string :: "json option \<Rightarrow> bool" where
  "is_string v = (case v of Some (JString _) \<Rightarrow> True | _ \<Rightarrow> False)"

definition listing_conforms :: "json \<Rightarrow> bool" where
  "listing_conforms item =
     (case item of
        JObject kvs \<Rightarrow> list_all (\<lambda>k. is_string (map_of kvs k)) required_fields
      | _ \<Rightarrow> False)"

definition response_conforms :: "json \<Rightarrow> bool" where
  "response_conforms data =
     (case data of
        JObject kvs \<Rightarrow>
          (case map_of kvs (u ''listings'') of
             Some (JArray items) \<Rightarrow> list_all listing_conforms items
           | _ \<Rightarrow> False)
      | _ \<Rightarrow> False)"

text \<open>A reply whose required fields hold no lone surrogate, and a reply without a key that
  the constructor of a model cannot take.\<close>

definition listing_encodable :: "json \<Rightarrow> bool" where
  "listing_encodable item =
     (case item of
        JObject kvs \<Rightarrow>
          list_all (\<lambda>k. case map_of kvs k of Some (JString s) \<Rightarrow> encodable s | _ \<Rightarrow> True)
            required_fields
      | _ \<Rightarrow> True)"

definition response_encodable :: "json \<Rightarrow> bool" where
  "response_encodable data =
     (case data of
        JObject kvs \<Rightarrow>
          (case map_of kvs (u ''listings'') of
             Some (JArray items) \<Rightarrow> list_all listing_encodable items
           | _ \<Rightarrow> True)
      | _ \<Rightarrow> True)"

definition listing_kwarg_free :: "pydantic \<Rightarrow> json \<Rightarrow> bool" where
  "listing_kwarg_free P item = (case item of JObject kvs \<Rightarrow> \<not> kwarg_clash P kvs | _ \<Rightarrow> True)"

definition kwarg_free :: "pydantic \<Rightarrow> json \<Rightarrow> bool" where
  "kwarg_free P data =
     (case data of
        JObject kvs \<Rightarrow>
          \<not> kwarg_clash P kvs \<and>
          (case map_of kvs (u ''listings'') of
             Some (JArray items) \<Rightarrow> list_all (listing_kwarg_free P) items
           | _ \<Rightarrow> True)
      | _ \<Rightarrow> True)"

text \<open>
  The limits of the interpreter that \<^verbatim>\<open>json.loads\<close> runs in: the number of digits an integer
  literal may have (0 for no limit; 4300 by default since Python 3.11) and the depth of
  nesting its stack has room for. \<open>json_loads\<close> stands for \<^verbatim>\<open>json.loads\<close> on the texts within
  them; beyond them \<^verbatim>\<open>json.loads\<close> raises.
\<close>

record interpreter =
  int_max_str_digits :: nat
  nesting_room :: nat

definition integer_literal :: "pystr \<Rightarrow> bool" where
  "integer_literal lit \<longleftrightarrow> list_all is_digit (if take 1 lit = [45] then drop 1 lit else lit)"

definition digits_within :: "nat \<Rightarrow> token \<Rightarrow> bool" where
  "digits_within n t =
     (case t of
        TAtom (JNumber lit) \<Rightarrow>
          n = 0 \<or> \<not> integer_literal lit \<or> length (filter is_digit lit) \<le> n
      | _ \<Rightarrow> True)"

fun deepest :: "nat \<Rightarrow> token list \<Rightarrow> nat" where
  "deepest d [] = d"
| "deepest d (t # ts) =
     (if t = TLBrace \<or> t = TLBracket then max d (deepest (Suc d) ts)
      else if t = TRBrace \<or> t = TRBracket then max d (deepest (d - 1) ts)
      else deepest d ts)"

definition within_limits :: "interpreter \<Rightarrow> pystr \<Rightarrow> bool" where
  "within_limits I s =
     (case lex s of
        None \<Rightarrow> True
      | Some ts \<Rightarrow>
          list_all (digits_within (int_max_str_digits I)) ts \<and> deepest 0 ts \<le> nesting_room I)"

text \<open>The reply restricted to the declared fields, in the order of their declaration.\<close>

definition declared_fields :: "json \<Rightarrow> json" where
  "declared_fields item =
     (case item of
        JObject kvs \<Rightarrow> JObject (map (\<lambda>k. (k, the (map_of kvs k))) required_fields)
      | _ \<Rightarrow> item)"

definition declared_response :: "json \<Rightarrow> json" where
  "declared_response data =
     (case data of
        JObject kvs \<Rightarrow>
          (case map_of kvs (u ''listings'') of
             Some (JArray items) \<Rightarrow> JObject [(u ''listings'', JArray (map declared_fields items))]
           | _ \<Rightarrow> data)
      | _ \<Rightarrow> data)"


text \<open>What the client state \<^verbatim>\<open>listings\<close> is typed as: an array of listing objects.\<close>

definition typed_listings :: "jsval \<Rightarrow> bool" where
  "typed_listings v =
     (case v of Value (JArray items) \<Rightarrow> list_all listing_conforms items | _ \<Rightarrow> False)"

text \<open>The one failure response of the handler.\<close>

definition generic_error :: response where
  "generic_error = \<lparr>status_code = 500, content = Detail error_detail\<rparr>"

section \<open>Concrete requests, replies and environments\<close>

definition no_str_coercion :: "json \<Rightarrow> pystr option" where
  "no_str_coercion v = None"

definition no_dict_coercion :: "json \<Rightarrow> (pystr \<times> json) list option" where
  "no_dict_coercion v = None"

definition always_serialisable :: "json \<Rightarrow> bool" where
  "always_serialisable body = True"

definition pydantic_strict :: pydantic where
  "pydantic_strict =
     \<lparr>str_lax = no_str_coercion, dict_lax = no_dict_coercion, schema_text = u ''{}'',
      init_self_kwarg = False, report_serialisable = always_serialisable\<rparr>"

definition default_limits :: interpreter where
  "default_limits = \<lparr>int_max_str_digits = 4300, nesting_room = 900\<rparr>"

definition environ_with_key :: environ where
  "environ_with_key k = (if k = u ''GEMINI_API_KEY'' then Some (u ''secret-key'') else None)"


definition reply_with :: "pystr \<Rightarrow> generate_content" where
  "reply_with t prompt = Inr t"

definition raise_with :: "py_exception \<Rightarrow> generate_content" where
  "raise_with e prompt = Inl e"

definition leaky_exception :: py_exception where
  "leaky_exception = SDKError (u ''PermissionDenied'') (u ''API key secret-key is not valid'')"

definition place_request :: AnalysisRequest where
  "place_request = \<lparr>address = u ''Erode, Tamil Nadu''\<rparr>"

definition erode_body :: json where
  "erode_body = JObject [(u ''address'', JString (u ''Erode, Tamil Nadu''))]"


definition erode_reply :: pystr where
  "erode_reply =
     u ''{\"listings\":[{\"project_name\":\"X\",\"developer\":\"Y\",\"details\":\"Z\",\"source_url\":\"http://a\"}]}''"

definition erode_listings :: ReraResponse where
  "erode_listings =
     \<lparr>listings = [\<lparr>project_name = u ''X'', developer = u ''Y'', details = u ''Z'',
                    source_url = u ''http://a''\<rparr>]\<rparr>"

definition erode_json :: json where
  "erode_json =
     JObject [(u ''listings'', JArray [JObject
       [(u ''project_name'', JString (u ''X'')), (u ''developer'', JString (u ''Y'')),
        (u ''details'', JString (u ''Z'')), (u ''source_url'', JString (u ''http://a''))]])]"

definition partial_reply :: pystr where
  "partial_reply =
     u ''{\"listings\":[{\"project_name\":\"X\",\"developer\":\"Y\",\"details\":\"Z\"}]}''"

definition partial_json :: json where
  "partial_json =
     JObject [(u ''listings'', JArray [JObject
       [(u ''project_name'', JString (u ''X'')), (u ''developer'', JString (u ''Y'')),
        (u ''details'', JString (u ''Z''))]])]"

definition extras_reply :: pystr where
  "extras_reply =
     u ''{\"note\":1,\"listings\":[{\"rating\":5,\"project_name\":\"X\",\"developer\":\"Y\",\"details\":\"Z\",\"source_url\":\"http://a\"}]}''"

definition extras_json :: json where
  "extras_json =
     JObject [(u ''note'', JNumber (u ''1'')),
       (u ''listings'', JArray [JObject
         [(u ''rating'', JNumber (u ''5'')),
          (u ''project_name'', JString (u ''X'')), (u ''developer'', JString (u ''Y'')),
          (u ''details'', JString (u ''Z'')), (u ''source_url'', JString (u ''http://a''))]])]"

definition fence_key_reply :: pystr where
  "fence_key_reply =
     u ''{\"listings\":[{\"project_name\":\"X\",\"developer\":\"Y\",\"details\":\"Z\",\"source_url```\":\"http://a\"}]}''"

definition fence_key_json :: json where
  "fence_key_json =
     JObject [(u ''listings'', JArray [JObject
       [(u ''project_name'', JString (u ''X'')), (u ''developer'', JString (u ''Y'')),
        (u ''details'', JString (u ''Z'')), (u ''source_url```'', JString (u ''http://a''))]])]"

definition fence_extra_reply :: pystr where
  "fence_extra_reply =
     u ''{\"listings\":[{\"project_name\":\"X\",\"developer\":\"Y\",\"details\":\"Z\",\"source_url\":\"http://a\",\"```source_url\":[]}]}''"

definition fence_extra_json :: json where
  "fence_extra_json =
     JObject [(u ''listings'', JArray [JObject
       [(u ''project_name'', JString (u ''X'')), (u ''developer'', JString (u ''Y'')),
        (u ''details'', JString (u ''Z'')), (u ''source_url'', JString (u ''http://a'')),
        (u ''```source_url'', JArray [])]])]"

definition empty_json :: json where
  "empty_json = JObject [(u ''listings'', JArray [])]"

definition empty_text :: pystr where
  "empty_text = [10] @ u ''{\"listings\": []}'' @ [10]"

definition empty_reply :: pystr where
  "empty_reply = fence_json @ empty_text @ fence @ [32, 10]"

definition backtick_body :: pystr where
  "backtick_body =
     u ''{\"listings\":[{\"project_name\":\"a```b\",\"developer\":\"Y\",\"details\":\"Z\",\"source_url\":\"http://a\"}]}''"

definition backtick_reply :: pystr where
  "backtick_reply = fence_json @ [10] @ backtick_body @ [10] @ fence"

definition backtick_json :: "pystr \<Rightarrow> json" where
  "backtick_json name =
     JObject [(u ''listings'', JArray [JObject
       [(u ''project_name'', JString name), (u ''developer'', JString (u ''Y'')),
        (u ''details'', JString (u ''Z'')), (u ''source_url'', JString (u ''http://a''))]])]"

definition stale_state :: ui_state where
  "stale_state =
     \<lparr>selectedPlace = u ''Erode'', isAnalyzing = False,
      listings_state = Value (JArray [JNull]), error_state = Some (u ''old'')\<rparr>"

definition backend_empty :: "fetch_request \<Rightarrow> fetch_outcome" where
  "backend_empty r = Response True (Some (JObject [(u ''listings'', JArray [])]))"

definition backend_no_listings :: "fetch_request \<Rightarrow> fetch_outcome" where
  "backend_no_listings r = Response True (Some (JObject []))"

section \<open>Fence stripping\<close>

lemma fence_eq: "fence = [96, 96, 96]"
  by (simp add: fence_def u_def)

lemma fence_json_eq: "fence_json = [96, 96, 96, 106, 115, 111, 110]"
  by (simp add: fence_json_def u_def)

lemma lead_simps [simp]:
  "lead [] = 0"
  "lead (c # cs) = (if c = 96 then Suc (lead cs) else 0)"
  by (simp_all add: lead_def)

lemma prefix_fence_iff: "prefix fence s \<longleftrightarrow> 3 \<le> lead s"
proof (cases s)
  case Nil
  then show ?thesis by (simp add: fence_eq)
next
  case (Cons a s1)
  show ?thesis
  proof (cases s1)
    case Nil
    with Cons show ?thesis by (simp add: fence_eq)
  next
    case (Cons b s2)
    show ?thesis
    proof (cases s2)
      case Nil
      with \<open>s = a # s1\<close> \<open>s1 = b # s2\<close> show ?thesis by (simp add: fence_eq)
    next
      case (Cons c s3)
      with \<open>s = a # s1\<close> \<open>s1 = b # s2\<close> show ?thesis by (auto simp add: fence_eq)
    qed
  qed
qed

lemma drop_fence: "prefix fence s \<Longrightarrow> lead (drop 3 s) = lead s - 3"
  by (auto simp add: fence_eq prefix_def)

lemma replace_fence_step:
  "prefix fence s \<Longrightarrow> py_replace fence [] s = py_replace fence [] (drop 3 s)"
  by (cases s) (simp_all add: fence_eq numeral_2_eq_2)

lemma replace_other_step:
  "\<not> prefix fence (c # cs) \<Longrightarrow> py_replace fence [] (c # cs) = c # py_replace fence [] cs"
  by (auto simp add: fence_eq)

text \<open>Removing fences leaves, of a run of backticks, its length modulo 3.\<close>

lemma lead_replace: "lead (py_replace fence [] s) = lead s mod 3"
proof (induction s rule: length_induct)
  case (1 s)
  show ?case
  proof (cases "prefix fence s")
    case True
    hence "s \<noteq> []" by (auto simp add: fence_eq)
    hence len: "length (drop 3 s) < length s" by simp
    have "lead (py_replace fence [] (drop 3 s)) = lead (drop 3 s) mod 3"
      using 1 len by blast
    moreover have "3 \<le> lead s" using True by (simp add: prefix_fence_iff)
    ultimately show ?thesis using drop_fence[OF True] replace_fence_step[OF True]
      by (metis le_mod_geq)
  next
    case False
    hence small: "lead s < 3" by (simp add: prefix_fence_iff)
    show ?thesis
    proof (cases s)
      case Nil
      then show ?thesis by (simp add: fence_eq)
    next
      case (Cons c cs)
      have r: "py_replace fence [] s = c # py_replace fence [] cs"
        using False Cons replace_other_step by simp
      have ih: "lead (py_replace fence [] cs) = lead cs mod 3"
        using 1 Cons by simp
      show ?thesis using small Cons r ih by (auto split: if_splits)
    qed
  qed
qed

lemma replace_not_prefix: "\<not> prefix fence (py_replace fence [] s)"
  by (simp add: prefix_fence_iff lead_replace not_le)

lemma replace_no_fence: "\<not> contains fence (py_replace fence [] s)"
proof (induction s rule: length_induct)
  case (1 s)
  show ?case
  proof (cases "prefix fence s")
    case True
    hence "s \<noteq> []" by (auto simp add: fence_eq)
    hence "length (drop 3 s) < length s" by simp
    then show ?thesis using 1 replace_fence_step[OF True] by simp
  next
    case False
    show ?thesis
    proof (cases s)
      case Nil
      then show ?thesis by (simp add: fence_eq)
    next
      case (Cons c cs)
      have r: "py_replace fence [] s = c # py_replace fence [] cs"
        using False Cons replace_other_step by simp
      have "\<not> contains fence (py_replace fence [] cs)" using 1 Cons by simp
      moreover have "\<not> prefix fence (c # py_replace fence [] cs)"
        using replace_not_prefix[of s] r by simp
      ultimately show ?thesis using r by simp
    qed
  qed
qed

lemma replace_absent: "old \<noteq> [] \<Longrightarrow> \<not> contains old s \<Longrightarrow> py_replace old new s = s"
  by (induction s) auto

lemma contains_fence_json: "contains fence_json s \<Longrightarrow> contains fence s"
  by (induction s) (auto simp: fence_eq fence_json_eq prefix_def)

lemma contains_dropWhile: "contains p (dropWhile Q s) \<Longrightarrow> contains p s"
  by (induction s) (auto split: if_splits)

lemma contains_Nil [simp]: "contains [] t"
  by (cases t) simp_all

lemma contains_append_right: "contains p s \<Longrightarrow> contains p (s @ t)"
proof (induction s)
  case Nil
  then show ?case by simp
next
  case (Cons a s)
  show ?case
  proof (cases "prefix p (a # s)")
    case True
    hence "prefix p ((a # s) @ t)" by (rule prefix_prefix)
    then show ?thesis by simp
  next
    case False
    with Cons show ?thesis by simp
  qed
qed

lemma rstrip_split: "s = rev (dropWhile Q (rev s)) @ rev (takeWhile Q (rev s))"
  by (metis rev_append rev_rev_ident takeWhile_dropWhile_id)

lemma contains_rstrip: "contains p (rev (dropWhile Q (rev s))) \<Longrightarrow> contains p s"
  using contains_append_right rstrip_split by metis

lemma contains_strip: "contains p (py_strip s) \<Longrightarrow> contains p s"
  unfolding py_strip_def using contains_rstrip contains_dropWhile by blast

lemma rstrip_lstripped:
  "dropWhile Q (rev (dropWhile Q (rev (dropWhile Q s)))) = rev (dropWhile Q (rev (dropWhile Q s)))"
proof -
  let ?x = "dropWhile Q s"
  let ?r = "rev (dropWhile Q (rev ?x))"
  have px: "?x = ?r @ rev (takeWhile Q (rev ?x))" by (rule rstrip_split)
  show ?thesis
  proof (cases ?r)
    case Nil
    show ?thesis unfolding Nil by simp
  next
    case (Cons a as)
    with px have "hd ?x = a" and "?x \<noteq> []"
      by (metis append_Cons list.sel(1), metis Nil_is_append_conv list.discI)
    hence "\<not> Q a" using hd_dropWhile by metis
    with Cons show ?thesis by simp
  qed
qed

lemma strip_idem: "py_strip (py_strip s) = py_strip s"
  unfolding py_strip_def by (simp add: rstrip_lstripped)

lemma sanitize_no_fence: "\<not> contains fence (cleaned_response_text t)"
  unfolding cleaned_response_text_def using contains_strip replace_no_fence by blast

lemma sanitize_clean:
  assumes "\<not> contains fence t"
  shows "cleaned_response_text t = py_strip t"
proof -
  have nf: "\<not> contains fence (py_strip t)" using assms contains_strip by blast
  hence nfj: "\<not> contains fence_json (py_strip t)" using contains_fence_json by blast
  have "py_replace fence_json [] (py_strip t) = py_strip t"
    using nfj by (simp add: replace_absent fence_json_eq)
  moreover have "py_replace fence [] (py_strip t) = py_strip t"
    using nf by (simp add: replace_absent fence_eq)
  ultimately show ?thesis by (simp add: cleaned_response_text_def strip_idem)
qed

lemma sanitize_idem: "cleaned_response_text (cleaned_response_text t) = cleaned_response_text t"
proof -
  have "py_strip (cleaned_response_text t) = cleaned_response_text t"
    unfolding cleaned_response_text_def by (rule strip_idem)
  then show ?thesis using sanitize_clean[OF sanitize_no_fence] by simp
qed

lemma strip_wrapped:
  assumes "list_all py_isspace front" and "list_all py_isspace back"
      and "x \<noteq> []" and "\<not> py_isspace (hd x)" and "\<not> py_isspace (last x)"
  shows "py_strip (front @ x @ back) = x"
proof -
  obtain c cs where x: "x = c # cs" using assms(3) by (cases x) auto
  have "\<And>y. y \<in> set front \<Longrightarrow> py_isspace y" using assms(1) by (simp add: list_all_iff)
  hence "dropWhile py_isspace (front @ x @ back) = dropWhile py_isspace (x @ back)"
    by (rule dropWhile_append2)
  also have "\<dots> = x @ back" using x assms(4) by simp
  finally have l: "dropWhile py_isspace (front @ x @ back) = x @ back" .
  obtain d ds where r: "rev x = d # ds" using assms(3) by (cases "rev x") auto
  hence "d = last x" by (metis list.sel(1) hd_rev)
  hence nd: "\<not> py_isspace d" using assms(5) by simp
  have "\<And>y. y \<in> set (rev back) \<Longrightarrow> py_isspace y" using assms(2) by (simp add: list_all_iff)
  hence "dropWhile py_isspace (rev back @ rev x) = dropWhile py_isspace (rev x)"
    by (rule dropWhile_append2)
  hence "dropWhile py_isspace (rev (x @ back)) = dropWhile py_isspace (rev x)"
    by simp
  also have "\<dots> = rev x" using r nd by simp
  finally show ?thesis using l by (simp add: py_strip_def)
qed

lemma fence_json_prefix_tail: "prefix fence_json (b @ fence) \<Longrightarrow> prefix fence b"
proof (cases b)
  case Nil
  assume "prefix fence_json (b @ fence)"
  with Nil show ?thesis by (simp add: fence_eq fence_json_eq)
next
  case (Cons c1 b1)
  assume a: "prefix fence_json (b @ fence)"
  show ?thesis
  proof (cases b1)
    case Nil
    with a Cons show ?thesis by (simp add: fence_eq fence_json_eq)
  next
    case (Cons c2 b2)
    show ?thesis
    proof (cases b2)
      case Nil
      with a \<open>b = c1 # b1\<close> \<open>b1 = c2 # b2\<close> show ?thesis by (simp add: fence_eq fence_json_eq)
    next
      case (Cons c3 b3)
      with a \<open>b = c1 # b1\<close> \<open>b1 = c2 # b2\<close> show ?thesis by (simp add: fence_eq fence_json_eq)
    qed
  qed
qed

lemma no_fence_json_tail: "\<not> contains fence b \<Longrightarrow> \<not> contains fence_json (b @ fence)"
proof (induction b)
  case Nil
  then show ?case by (simp add: fence_eq fence_json_eq)
next
  case (Cons c cs)
  hence np: "\<not> prefix fence (c # cs)" and nc: "\<not> contains fence cs" by simp_all
  have "\<not> prefix fence_json ((c # cs) @ fence)" using np fence_json_prefix_tail by blast
  moreover have "\<not> contains fence_json (cs @ fence)" using Cons.IH nc by simp
  ultimately show ?case by simp
qed

text \<open>A closing fence after a text without fences is removed, and nothing else.\<close>

lemma replace_tail: "\<not> contains fence b \<Longrightarrow> py_replace fence [] (b @ fence) = b"
proof (induction b)
  case Nil
  then show ?case by (simp add: fence_eq)
next
  case (Cons c cs)
  hence np: "\<not> prefix fence (c # cs)" and nc: "\<not> contains fence cs" by simp_all
  have ih: "py_replace fence [] (cs @ fence) = cs" using Cons.IH nc by simp
  show ?case
  proof (cases "prefix fence ((c # cs) @ fence)")
    case False
    with ih show ?thesis by (auto simp add: fence_eq)
  next
    case True
    show ?thesis
    proof (cases cs)
      case Nil
      with True show ?thesis by (simp add: fence_eq)
    next
      case c1: (Cons d ds)
      show ?thesis
      proof (cases ds)
        case Nil
        with True c1 show ?thesis by (simp add: fence_eq)
      next
        case (Cons e es)
        with True c1 np show ?thesis by (simp add: fence_eq)
      qed
    qed
  qed
qed

lemma replace_json_open:
  assumes "\<not> contains fence b" and "b = c # cs" and "c \<noteq> 96" and "c \<noteq> 106"
  shows "py_replace fence_json [] (fence @ b @ fence) = fence @ b @ fence"
proof -
  have "\<not> contains fence_json (b @ fence)" using assms(1) by (rule no_fence_json_tail)
  hence "\<not> contains fence_json (fence @ b @ fence)"
    using assms(2,3,4) by (simp add: fence_eq fence_json_eq)
  then show ?thesis by (simp add: replace_absent fence_json_eq)
qed

lemma replace_json_opener: "py_replace fence_json [] (fence_json @ s) = py_replace fence_json [] s"
  by (simp add: fence_json_eq)

lemma replace_opener: "py_replace fence [] (fence @ s) = py_replace fence [] s"
  by (simp add: fence_eq)

text \<open>What sanitization makes of a fenced body that has no fence in it and starts like JSON.\<close>

lemma sanitize_fenced:
  assumes "\<not> contains fence b" and "b = c # cs" and "c \<noteq> 96" and "c \<noteq> 106"
      and "opener = fence_json \<or> opener = fence"
      and "list_all py_isspace front" and "list_all py_isspace back"
  shows "cleaned_response_text (front @ opener @ b @ fence @ back) = py_strip b"
proof -
  let ?x = "opener @ b @ fence"
  have hd: "hd ?x = 96" using assms(5) by (auto simp add: fence_eq fence_json_eq)
  have la: "last ?x = 96" by (simp add: fence_eq)
  have ne: "?x \<noteq> []" by (simp add: fence_eq)
  have n96: "\<not> py_isspace 96" by (simp add: py_isspace_def)
  have "py_strip (front @ ?x @ back) = ?x"
    using strip_wrapped[OF assms(6,7) ne] hd la n96 by simp
  hence s: "py_strip (front @ opener @ b @ fence @ back) = ?x" by simp
  have "py_replace fence [] (py_replace fence_json [] ?x) = b"
  proof (cases "opener = fence_json")
    case True
    have "py_replace fence_json [] (b @ fence) = b @ fence"
      using no_fence_json_tail[OF assms(1)] by (simp add: replace_absent fence_json_eq)
    with True show ?thesis using replace_json_opener replace_tail[OF assms(1)] by simp
  next
    case False
    hence o: "opener = fence" using assms(5) by simp
    show ?thesis
      using o replace_json_open[OF assms(1,2,3,4)] replace_opener replace_tail[OF assms(1)]
      by simp
  qed
  with s show ?thesis by (simp add: cleaned_response_text_def)
qed

section \<open>White space around a JSON text\<close>

text \<open>
  White space after a text changes nothing for any of the scanners; so \<^verbatim>\<open>json.loads\<close> reads
  a text and the same text stripped alike.
\<close>

lemma space_facts:
  assumes "py_isspace c"
  shows "c \<noteq> 34" "c \<noteq> 92" "c \<noteq> 117" "c \<noteq> 45" "c \<noteq> 43" "c \<noteq> 46" "c \<noteq> 101" "c \<noteq> 69"
        "c \<noteq> 96" "c \<noteq> 106" "\<not> is_digit c" "hex_val c = None" "simple_escape c = None"
        "punctuation c = None"
  using assms
  by (auto simp add: py_isspace_def is_digit_def hex_val_def simple_escape_def punctuation_def)

lemma takeWhile_cut: "list_all py_isspace w \<Longrightarrow> takeWhile is_digit (x @ w) = takeWhile is_digit x"
proof (induction x)
  case Nil
  then show ?case by (cases w) (simp_all add: space_facts)
next
  case (Cons a x)
  then show ?case by simp
qed

lemma prefix_cut:
  "list_all (\<lambda>c. \<not> py_isspace c) p \<Longrightarrow> list_all py_isspace w \<Longrightarrow>
   prefix p (a @ w) \<longleftrightarrow> prefix p a"
proof (induction p arbitrary: a)
  case Nil
  then show ?case by simp
next
  case (Cons x xs)
  show ?case
  proof (cases a)
    case Nil
    with Cons.prems show ?thesis by (cases w) auto
  next
    case (Cons y ys)
    with Cons.IH Cons.prems show ?thesis by simp
  qed
qed

lemma scan_literal_cut: "list_all py_isspace w \<Longrightarrow> scan_literal (a @ w) = scan_literal a"
  by (simp add: scan_literal_def prefix_cut u_def py_isspace_def)

lemma scan_literal_len: "scan_literal s = Some (v, n) \<Longrightarrow> 1 \<le> n \<and> n \<le> length s"
  by (auto simp add: scan_literal_def u_def prefix_def split: if_splits)

lemma scan_fraction_cut: "list_all py_isspace w \<Longrightarrow> scan_fraction (x @ w) = scan_fraction x"
proof (cases x)
  case Nil
  assume "list_all py_isspace w"
  with Nil show ?thesis by (cases w) (simp_all add: scan_fraction_def space_facts)
next
  case (Cons p qs)
  assume "list_all py_isspace w"
  with Cons show ?thesis by (simp add: scan_fraction_def takeWhile_cut)
qed

lemma scan_fraction_len: "length (scan_fraction x) \<le> length x"
  by (cases x) (simp_all add: scan_fraction_def length_takeWhile_le)

lemma take1_cut:
  "list_all py_isspace w \<Longrightarrow> \<not> py_isspace c \<Longrightarrow> take 1 (x @ w) = [c] \<longleftrightarrow> take 1 x = [c]"
  by (cases x; cases w) auto

lemma scan_exponent_cut: "list_all py_isspace w \<Longrightarrow> scan_exponent (x @ w) = scan_exponent x"
proof (cases x)
  case Nil
  assume "list_all py_isspace w"
  with Nil show ?thesis by (cases w) (simp_all add: scan_exponent_def space_facts)
next
  case (Cons e es)
  assume w: "list_all py_isspace w"
  have s43: "take 1 (es @ w) = [43] \<longleftrightarrow> take 1 es = [43]"
    using take1_cut[OF w, of 43 es] by (simp add: py_isspace_def)
  have s45: "take 1 (es @ w) = [45] \<longleftrightarrow> take 1 es = [45]"
    using take1_cut[OF w, of 45 es] by (simp add: py_isspace_def)
  show ?thesis
  proof (cases "take 1 es = [43] \<or> take 1 es = [45]")
    case True
    then obtain d ds where es: "es = d # ds" by (cases es) auto
    with True Cons w show ?thesis
      by (auto simp add: scan_exponent_def Let_def takeWhile_cut)
  next
    case False
    with Cons w s43 s45 show ?thesis
      by (simp add: scan_exponent_def Let_def takeWhile_cut)
  qed
qed

lemma scan_exponent_len: "length (scan_exponent x) \<le> length x"
proof (cases x)
  case Nil
  then show ?thesis by (simp add: scan_exponent_def)
next
  case (Cons e es)
  have a: "length (takeWhile is_digit (drop k es)) \<le> length es - k" for k
    by (metis length_drop length_takeWhile_le)
  show ?thesis
  proof (cases "take 1 es = [43] \<or> take 1 es = [45]")
    case True
    then obtain d ds where es: "es = d # ds" by (cases es) auto
    with True Cons a[of 1] show ?thesis
      by (auto simp add: scan_exponent_def Let_def)
  next
    case False
    with Cons a[of 0] show ?thesis
      by (simp add: scan_exponent_def Let_def)
  qed
qed


lemma scan_tail_cut: "list_all py_isspace w \<Longrightarrow> scan_tail (x @ w) = scan_tail x"
  by (simp add: scan_tail_def Let_def scan_fraction_cut scan_fraction_len scan_exponent_cut)

lemma scan_tail_len: "length (scan_tail x) \<le> length x"
proof -
  have "length (scan_exponent (drop (length (scan_fraction x)) x))
          \<le> length x - length (scan_fraction x)"
    by (metis length_drop scan_exponent_len)
  then show ?thesis using scan_fraction_len[of x] by (simp add: scan_tail_def Let_def)
qed

lemma scan_integer_cut: "list_all py_isspace w \<Longrightarrow> scan_integer (x @ w) = scan_integer x"
  by (cases x; cases w) (simp_all add: scan_integer_def takeWhile_cut space_facts)

lemma scan_integer_len: "scan_integer r = Some i \<Longrightarrow> i \<noteq> [] \<and> length i \<le> length r"
  by (cases r) (auto simp add: scan_integer_def length_takeWhile_le split: if_splits)

lemma scan_number_cut: "list_all py_isspace w \<Longrightarrow> scan_number (a @ w) = scan_number a"
proof -
  assume w: "list_all py_isspace w"
  let ?sign = "if take 1 a = [45] then [45::nat] else []"
  have t: "take 1 (a @ w) = [45] \<longleftrightarrow> take 1 a = [45]"
    using take1_cut[OF w, of 45 a] by (simp add: py_isspace_def)
  have d: "drop (length ?sign) (a @ w) = drop (length ?sign) a @ w"
    by (cases a) auto
  show ?thesis
  proof (cases "scan_integer (drop (length ?sign) a)")
    case None
    then show ?thesis using t d w
      by (simp add: scan_number_def Let_def scan_integer_cut del: drop_append take_append)
  next
    case (Some i)
    hence "length i \<le> length (drop (length ?sign) a)" using scan_integer_len by blast
    hence "drop (length i) (drop (length ?sign) a @ w) = drop (length i) (drop (length ?sign) a) @ w"
      by simp
    then show ?thesis using Some t d w
      by (simp add: scan_number_def Let_def scan_integer_cut scan_tail_cut
          del: drop_append take_append)
  qed
qed

lemma scan_number_len: "scan_number s = Some (lit, n) \<Longrightarrow> 1 \<le> n \<and> n \<le> length s"
proof -
  assume a: "scan_number s = Some (lit, n)"
  let ?sign = "if take 1 s = [45] then [45::nat] else []"
  let ?r = "drop (length ?sign) s"
  from a obtain i where i: "scan_integer ?r = Some i"
    and n: "n = length (?sign @ i @ scan_tail (drop (length i) ?r))"
    by (auto simp add: scan_number_def Let_def split: option.splits)
  have li: "i \<noteq> [] \<and> length i \<le> length ?r" using i by (rule scan_integer_len)
  have lt: "length (scan_tail (drop (length i) ?r)) \<le> length ?r - length i"
    by (metis length_drop scan_tail_len)
  have ls: "length ?sign \<le> length s" by (cases s) auto
  have "length ?r = length s - length ?sign" by simp
  with li lt ls n show ?thesis by (cases i) auto
qed

lemma those_Some_all: "those (map f xs) = Some ys \<Longrightarrow> \<forall>x\<in>set xs. f x \<noteq> None"
  by (induction xs arbitrary: ys) (auto split: option.splits)

lemma hex4_cut: "list_all py_isspace w \<Longrightarrow> hex4 (a @ w) = hex4 a"
proof (cases "4 \<le> length a")
  case True
  then show ?thesis by (simp add: hex4_def)
next
  case False
  assume w: "list_all py_isspace w"
  show ?thesis
  proof (cases "hex4 (a @ w)")
    case None
    with False show ?thesis by (simp add: hex4_def)
  next
    case (Some c)
    hence len: "4 \<le> length (a @ w)" by (simp add: hex4_def split: if_splits)
    from Some obtain ds where "those (map hex_val (take 4 (a @ w))) = Some ds"
      by (auto simp add: hex4_def split: if_splits)
    hence all: "\<forall>x\<in>set (take 4 (a @ w)). hex_val x \<noteq> None" by (rule those_Some_all)
    from False len obtain x xs where wx: "w = x # xs" by (cases w) auto
    with False have "x \<in> set (take 4 (a @ w))" by (cases "4 - length a") auto
    with all have "hex_val x \<noteq> None" by blast
    moreover have "py_isspace x" using w wx by simp
    ultimately have False by (simp add: space_facts)
    then show ?thesis ..
  qed
qed

lemma hex4_len: "hex4 s = Some c \<Longrightarrow> 4 \<le> length s"
  by (simp add: hex4_def split: if_splits)

lemma take2_cut:
  "list_all py_isspace w \<Longrightarrow> take 2 (x @ w) = [92, 117] \<longleftrightarrow> take 2 x = [92, 117]"
proof (cases x)
  case Nil
  assume "list_all py_isspace w"
  with Nil show ?thesis by (cases w) (auto simp add: space_facts)
next
  case (Cons a xs)
  assume w: "list_all py_isspace w"
  show ?thesis
  proof (cases xs)
    case Nil
    with Cons w show ?thesis by (cases w) (auto simp add: space_facts)
  next
    case (Cons b ys)
    with \<open>x = a # xs\<close> show ?thesis by simp
  qed
qed

lemma scan_escape_space: "list_all py_isspace w \<Longrightarrow> scan_escape w = None"
  by (cases w) (simp_all add: scan_escape_def space_facts)

lemma scan_escape_cut: "list_all py_isspace w \<Longrightarrow> scan_escape (a @ w) = scan_escape a"
proof (cases a)
  case Nil
  assume "list_all py_isspace w"
  then show ?thesis using Nil scan_escape_space by (simp add: scan_escape_def)
next
  case (Cons e es)
  assume w: "list_all py_isspace w"
  show ?thesis
  proof (cases "hex4 es")
    case None
    with Cons w show ?thesis by (simp add: scan_escape_def hex4_cut)
  next
    case (Some c)
    hence l4: "4 \<le> length es" by (rule hex4_len)
    hence d4: "drop 4 (es @ w) = drop 4 es @ w" by simp
    show ?thesis
    proof (cases "take 2 (drop 4 es) = [92, 117]")
      case True
      have "length (take 2 (drop 4 es)) = 2" unfolding True by simp
      hence "6 \<le> length es" by simp
      hence d6: "drop 6 (es @ w) = drop 6 es @ w" by simp
      from Cons w Some True d4 d6 show ?thesis
        by (simp add: scan_escape_def hex4_cut take2_cut del: drop_append take_append)
    next
      case False
      with Cons w Some d4 show ?thesis
        by (simp add: scan_escape_def hex4_cut take2_cut del: drop_append take_append)
    qed
  qed
qed

lemma scan_escape_len: "scan_escape s = Some (d, n) \<Longrightarrow> 1 \<le> n \<and> n \<le> length s"
proof (cases s)
  case Nil
  assume "scan_escape s = Some (d, n)"
  with Nil show ?thesis by (simp add: scan_escape_def)
next
  case (Cons e es)
  assume a: "scan_escape s = Some (d, n)"
  show ?thesis
  proof (cases "e = 117")
    case False
    with a Cons show ?thesis by (auto simp add: scan_escape_def)
  next
    case True
    with a Cons obtain c where c: "hex4 es = Some c"
      by (auto simp add: scan_escape_def split: option.splits)
    hence l4: "4 \<le> length es" by (rule hex4_len)
    show ?thesis
    proof (cases "55296 \<le> c \<and> c \<le> 56319 \<and> take 2 (drop 4 es) = [92, 117]")
      case False
      with a Cons True c l4 show ?thesis by (auto simp add: scan_escape_def)
    next
      case t: True
      with a Cons True c obtain c2 where c2: "hex4 (drop 6 es) = Some c2"
        by (auto simp add: scan_escape_def split: option.splits)
      hence "4 \<le> length (drop 6 es)" by (rule hex4_len)
      hence "10 \<le> length es" by simp
      with a Cons True c c2 t show ?thesis
        by (auto simp add: scan_escape_def split: if_splits)
    qed
  qed
qed


lemma scanstring_space: "list_all py_isspace w \<Longrightarrow> scanstring w = None"
  by (induction w) (simp_all add: space_facts)

lemma scanstring_cut: "list_all py_isspace w \<Longrightarrow> scanstring (a @ w) = scanstring a"
proof (induction a rule: scanstring.induct)
  case 1
  then show ?case by (simp add: scanstring_space)
next
  case (2 c cs)
  show ?case
  proof (cases "c = 92")
    case True
    show ?thesis
    proof (cases "scan_escape cs")
      case None
      with True 2 show ?thesis by (simp add: scan_escape_cut)
    next
      case (Some dn)
      obtain d n where dn: "dn = (d, n)" by (cases dn)
      with Some have "n \<le> length cs" using scan_escape_len by blast
      hence dr: "drop n (cs @ w) = drop n cs @ w" by simp
      have "scanstring (drop n cs @ w) = scanstring (drop n cs)"
        using 2 True Some dn by simp
      with True Some dn dr 2(3) show ?thesis
        by (simp add: scan_escape_cut del: drop_append)
    qed
  next
    case False
    with 2 show ?thesis by simp
  qed
qed

lemma scanstring_len: "scanstring s = Some (str, k) \<Longrightarrow> 1 \<le> k \<and> k \<le> length s"
proof (induction s arbitrary: str k rule: scanstring.induct)
  case 1
  then show ?case by simp
next
  case (2 c cs)
  show ?case
  proof (cases "c = 34")
    case True
    with 2(3) show ?thesis by simp
  next
    case n34: False
    show ?thesis
    proof (cases "c = 92")
      case True
      with 2(3) n34 obtain d n s' k' where e: "scan_escape cs = Some (d, n)"
        and r: "scanstring (drop n cs) = Some (s', k')" and k: "k = Suc n + k'"
        by (auto split: option.splits)
      have "1 \<le> n \<and> n \<le> length cs" using e by (rule scan_escape_len)
      moreover have "1 \<le> k' \<and> k' \<le> length (drop n cs)"
        using 2(1)[OF n34 True e refl r] .
      ultimately show ?thesis using k by auto
    next
      case False
      with 2(3) n34 obtain s' k' where c32: "\<not> c < 32"
        and r: "scanstring cs = Some (s', k')" and k: "k = Suc k'"
        by (auto split: if_splits)
      have "1 \<le> k' \<and> k' \<le> length cs" using 2(2)[OF n34 False c32 r] .
      then show ?thesis using k by auto
    qed
  qed
qed

lemma lex_space_start: "py_isspace c \<Longrightarrow> \<not> json_ws c \<Longrightarrow> lex (c # cs) = None"
proof -
  assume sp: "py_isspace c" and nw: "\<not> json_ws c"
  have "scan_literal (c # cs) = None"
    using sp by (auto simp add: scan_literal_def u_def py_isspace_def)
  moreover have "scan_number (c # cs) = None"
    using sp by (simp add: scan_number_def scan_integer_def space_facts)
  ultimately show ?thesis using sp nw by (simp add: space_facts)
qed

lemma lex_space: "list_all py_isspace w \<Longrightarrow> lex w = Some ts \<Longrightarrow> ts = []"
proof (induction w)
  case Nil
  then show ?case by simp
next
  case (Cons c cs)
  show ?case
  proof (cases "json_ws c")
    case True
    with Cons show ?thesis by simp
  next
    case False
    with Cons.prems lex_space_start[of c cs] show ?thesis by simp
  qed
qed

lemma lex_cut: "list_all py_isspace w \<Longrightarrow> lex (a @ w) = Some ts \<Longrightarrow> lex a = Some ts"
proof (induction a arbitrary: ts rule: lex.induct)
  case 1
  hence "ts = []" using lex_space[of w ts] by simp
  then show ?case by simp
next
  case (2 c cs)
  note w = \<open>list_all py_isspace w\<close>
  have whole: "lex (c # (cs @ w)) = Some ts" using 2(7) by simp
  show ?case
  proof (cases "json_ws c")
    case True
    with whole 2(1)[OF True w] show ?thesis by simp
  next
    case nws: False
    show ?thesis
    proof (cases "punctuation c")
      case (Some t)
      with nws whole obtain ts' where r: "lex (cs @ w) = Some ts'" and ts: "ts = t # ts'"
        by auto
      have "lex cs = Some ts'" using 2(5)[OF nws Some w r] .
      with nws Some ts show ?thesis by simp
    next
      case None
      show ?thesis
      proof (cases "c = 34")
        case True
        with nws None whole obtain s n ts' where sc: "scanstring (cs @ w) = Some (s, n)"
          and r: "lex (drop n (cs @ w)) = Some ts'" and ts: "ts = TAtom (JString s) # ts'"
          by (auto split: option.splits)
        have sc': "scanstring cs = Some (s, n)" using sc scanstring_cut[OF w] by simp
        hence "n \<le> length cs" using scanstring_len by blast
        hence "drop n (cs @ w) = drop n cs @ w" by simp
        with r have r': "lex (drop n cs @ w) = Some ts'" by simp
        have "lex (drop n cs) = Some ts'" using 2(2)[OF nws None True sc' refl w r'] .
        with nws None True sc' ts show ?thesis by simp
      next
        case nq: False
        have lit: "scan_literal (c # cs @ w) = scan_literal (c # cs)"
          using scan_literal_cut[OF w, of "c # cs"] by simp
        have num: "scan_number (c # cs @ w) = scan_number (c # cs)"
          using scan_number_cut[OF w, of "c # cs"] by simp
        show ?thesis
        proof (cases "scan_literal (c # cs)")
          case (Some vn)
          obtain v n where vn: "vn = (v, n)" by (cases vn)
          with Some have "1 \<le> n \<and> n \<le> length (c # cs)" using scan_literal_len by blast
          hence "drop (n - 1) (cs @ w) = drop (n - 1) cs @ w" by auto
          with nws None nq whole lit Some vn obtain ts' where
            r': "lex (drop (n - 1) cs @ w) = Some ts'" and ts: "ts = TAtom v # ts'"
            by (auto simp del: drop_append)
          from Some vn have sl: "scan_literal (c # cs) = Some (v, n)" by simp
          have "lex (drop (n - 1) cs) = Some ts'"
            using 2(4)[OF nws None nq sl refl w r'] .
          with nws None nq Some vn ts show ?thesis by simp
        next
          case nl: None
          show ?thesis
          proof (cases "scan_number (c # cs)")
            case None
            with nws \<open>punctuation c = None\<close> nq nl whole lit num show ?thesis by simp
          next
            case (Some ln)
            obtain l n where ln: "ln = (l, n)" by (cases ln)
            with Some have "1 \<le> n \<and> n \<le> length (c # cs)" using scan_number_len by blast
            hence "drop (n - 1) (cs @ w) = drop (n - 1) cs @ w" by auto
            with nws \<open>punctuation c = None\<close> nq whole lit num nl Some ln obtain ts' where
              r': "lex (drop (n - 1) cs @ w) = Some ts'" and ts: "ts = TAtom (JNumber l) # ts'"
              by (auto simp del: drop_append)
            from Some ln have sn: "scan_number (c # cs) = Some (l, n)" by simp
            have "lex (drop (n - 1) cs) = Some ts'"
              using 2(3)[OF nws \<open>punctuation c = None\<close> nq nl sn refl w r'] .
            with nws \<open>punctuation c = None\<close> nq nl Some ln ts show ?thesis by simp
          qed
        qed
      qed
    qed
  qed
qed

lemma lex_lstrip: "lex b = Some ts \<Longrightarrow> lex (dropWhile py_isspace b) = Some ts"
proof (induction b)
  case Nil
  then show ?case by simp
next
  case (Cons c cs)
  show ?case
  proof (cases "py_isspace c")
    case False
    with Cons.prems show ?thesis by simp
  next
    case True
    show ?thesis
    proof (cases "json_ws c")
      case ws: True
      with Cons True show ?thesis by simp
    next
      case False
      with Cons.prems lex_space_start[OF True False, of cs] show ?thesis by simp
    qed
  qed
qed

lemma lex_strip: "lex b = Some ts \<Longrightarrow> lex (py_strip b) = Some ts"
proof -
  assume a: "lex b = Some ts"
  let ?x = "dropWhile py_isspace b"
  have x: "?x = py_strip b @ rev (takeWhile py_isspace (rev ?x))"
    unfolding py_strip_def by (metis rev_append rev_rev_ident takeWhile_dropWhile_id)
  have w: "list_all py_isspace (rev (takeWhile py_isspace (rev ?x)))"
    by (simp add: list_all_iff) (meson set_takeWhileD)
  have "lex ?x = Some ts" using a by (rule lex_lstrip)
  with x have "lex (py_strip b @ rev (takeWhile py_isspace (rev ?x))) = Some ts" by simp
  then show ?thesis using lex_cut[OF w] by blast
qed

lemma loads_strip: "json_loads b = Some v \<Longrightarrow> json_loads (py_strip b) = Some v"
proof -
  assume a: "json_loads b = Some v"
  then obtain ts where "lex b = Some ts" by (auto simp add: json_loads_def split: option.splits)
  hence "lex (py_strip b) = lex b" using lex_strip by simp
  with a show ?thesis by (simp add: json_loads_def)
qed


lemma lex_bad_start: "c = 96 \<or> c = 106 \<Longrightarrow> lex (c # cs) = None"
proof -
  assume c: "c = 96 \<or> c = 106"
  have "scan_literal (c # cs) = None"
    using c by (auto simp add: scan_literal_def u_def)
  moreover have "scan_number (c # cs) = None"
    using c by (auto simp add: scan_number_def scan_integer_def is_digit_def)
  ultimately show ?thesis using c by (auto simp add: json_ws_def punctuation_def)
qed

lemma loads_start:
  assumes "json_loads b = Some v"
  shows "\<exists>c cs. b = c # cs \<and> c \<noteq> 96 \<and> c \<noteq> 106"
proof (cases b)
  case Nil
  with assms show ?thesis by (simp add: json_loads_def)
next
  case (Cons c cs)
  from assms have "lex b \<noteq> None" by (auto simp add: json_loads_def split: option.splits)
  with Cons lex_bad_start[of c cs] show ?thesis by auto
qed

lemmas scan_defs = json_ws_def punctuation_def scan_literal_def scan_number_def
  scan_integer_def scan_tail_def scan_fraction_def scan_exponent_def is_digit_def
  scan_escape_def simple_escape_def hex4_def hex_val_def Let_def

lemmas sanitize_defs = cleaned_response_text_def py_strip_def fence_def fence_json_def
  py_isspace_def

lemma empty_text_loads: "json_loads empty_text = Some empty_json"
  by (simp add: empty_text_def empty_json_def json_loads_def u_def scan_defs)

lemma empty_text_no_fence: "\<not> contains fence empty_text"
  by (simp add: empty_text_def fence_def u_def)

lemma backtick_body_loads: "json_loads backtick_body = Some (backtick_json (u ''a```b''))"
  by (simp add: backtick_body_def backtick_json_def json_loads_def u_def scan_defs)

lemma backtick_reply_clean:
  "cleaned_response_text backtick_reply =
     u ''{\"listings\":[{\"project_name\":\"ab\",\"developer\":\"Y\",\"details\":\"Z\",\"source_url\":\"http://a\"}]}''"
  by (simp add: backtick_reply_def backtick_body_def sanitize_defs u_def)

lemma backtick_reply_loads:
  "json_loads (cleaned_response_text backtick_reply) = Some (backtick_json (u ''ab''))"
  unfolding backtick_reply_clean
  by (simp add: backtick_json_def json_loads_def u_def scan_defs)

text \<open>
  C1. For every model reply that is a well-formed JSON body wrapped in code-fence markers
  (an opening fence with or without the tag \<^verbatim>\<open>json\<close>, the body, a closing fence, white space
  around), where the body contains no fence marker itself, sanitization followed by parsing
  gives the value of the body parsed directly, and so does the unwrapped body; and
  sanitizing any text a second time changes nothing.
\<close>

theorem fence_stripping_lossless:
  assumes "json_loads body = Some v"
      and "\<not> contains fence body"
      and "opener = fence_json \<or> opener = fence"
      and "list_all py_isspace front" and "list_all py_isspace back"
  shows "json_loads (cleaned_response_text (front @ opener @ body @ fence @ back))
           = json_loads body \<and>
         json_loads (cleaned_response_text body) = json_loads body \<and>
         cleaned_response_text (cleaned_response_text t) = cleaned_response_text t"
proof -
  obtain c cs where b: "body = c # cs" "c \<noteq> 96" "c \<noteq> 106"
    using loads_start[OF assms(1)] by blast
  have "cleaned_response_text (front @ opener @ body @ fence @ back) = py_strip body"
    using sanitize_fenced[OF assms(2) b assms(3,4,5)] .
  moreover have "cleaned_response_text body = py_strip body"
    using assms(2) by (rule sanitize_clean)
  moreover have "json_loads (py_strip body) = json_loads body"
    using loads_strip[OF assms(1)] assms(1) by simp
  ultimately show ?thesis using sanitize_idem by simp
qed

theorem fence_stripping_lossless_witness:
  "json_loads empty_text = Some empty_json \<and>
   \<not> contains fence empty_text \<and>
   list_all py_isspace [32, 10] \<and>
   json_loads (cleaned_response_text empty_reply) = Some empty_json \<and>
   cleaned_response_text (cleaned_response_text empty_reply) = cleaned_response_text empty_reply"
  using fence_stripping_lossless [of empty_text empty_json fence_json "[]" "[32, 10]" empty_reply]
  by (simp add: empty_text_loads empty_text_no_fence empty_reply_def py_isspace_def)

text \<open>
  As stated for every well-formed body the property fails: a string value that contains a
  fence marker loses it.
\<close>

theorem fence_in_string_counterexample:
  "json_loads backtick_body = Some (backtick_json (u ''a```b'')) \<and>
   json_loads (cleaned_response_text backtick_reply) = Some (backtick_json (u ''ab'')) \<and>
   json_loads (cleaned_response_text backtick_reply) \<noteq> json_loads backtick_body"
  by (simp add: backtick_body_loads backtick_reply_loads backtick_json_def u_def)

section \<open>The endpoint\<close>

lemma raised_generic:
  "snd (try_block P env gen request) = Inl e \<Longrightarrow> snd (endpoint P env gen request) = generic_error"
  by (cases "try_block P env gen request")
     (simp add: endpoint_def respond_def timed_def find_rera_listings_def generic_error_def)

lemma returned_ok:
  "snd (try_block P env gen request) = Inr r \<Longrightarrow> serialisable r \<Longrightarrow>
   snd (endpoint P env gen request) = \<lparr>status_code = 200, content = Model r\<rparr>"
  by (cases "try_block P env gen request")
     (simp add: endpoint_def respond_def timed_def find_rera_listings_def)




lemma middleware_response: "snd (add_process_time_header method path run) = snd run"
  by (cases run) (simp add: add_process_time_header_def)

lemma middleware_events:
  "set (fst (add_process_time_header method path run)) \<subseteq> insert (LogRequest method path) (set (fst run))"
  by (cases run) (auto simp add: add_process_time_header_def)

lemma post_valid:
  "AnalysisRequest_validate P body = Some request \<Longrightarrow>
   snd (post_find_rera_listings P env gen body) = snd (endpoint P env gen request)"
  by (simp add: post_find_rera_listings_def middleware_response)


lemma address_no_clash: "\<not> kwarg_clash P [(u ''address'', v)]"
  by (simp add: kwarg_clash_def u_def)

lemma validate_address:
  "AnalysisRequest_validate P (JObject [(u ''address'', JString a)]) = Some \<lparr>address = a\<rparr>"
  using address_no_clash
  by (simp add: AnalysisRequest_validate_def as_mapping_def required_str_def str_validate_def)




lemma is_generate_simps [simp]:
  "\<not> is_generate (LogRequest m p)" "\<not> is_generate (LogReceived a)" "\<not> is_generate (LogError e)"
  by (simp_all add: is_generate_def)

subsection \<open>Start-up\<close>



subsection \<open>Schema validation\<close>

lemma lacks_field_invalid:
  "listing_lacks_field item \<Longrightarrow> ReraListing_validate P item = None"
  by (cases item)
     (auto simp add: listing_lacks_field_def ReraListing_validate_def as_mapping_def
        required_str_def required_fields_def split: option.splits)

lemma those_None: "list_ex (\<lambda>x. f x = None) xs \<Longrightarrow> those (map f xs) = None"
  by (induction xs) (auto split: option.splits)

lemma missing_field_rejected:
  "missing_required_field data \<Longrightarrow> \<exists>e. ReraResponse_init P data = Inl e"
proof (cases data)
  case (JObject kvs)
  assume m: "missing_required_field data"
  show ?thesis
  proof (cases "map_of kvs (u ''listings'')")
    case None
    with JObject show ?thesis by (simp add: ReraResponse_init_def)
  next
    case (Some l)
    show ?thesis
    proof (cases l)
      case (JArray items)
      with m JObject Some have "list_ex listing_lacks_field items"
        by (simp add: missing_required_field_def)
      hence "list_ex (\<lambda>x. ReraListing_validate P x = None) items"
        unfolding list_ex_iff using lacks_field_invalid by blast
      hence "those (map (ReraListing_validate P) items) = None" by (rule those_None)
      with JObject Some JArray show ?thesis by (simp add: ReraResponse_init_def)
    qed (use JObject Some in \<open>simp_all add: ReraResponse_init_def\<close>)
  qed
qed (simp_all add: ReraResponse_init_def)

lemma is_string_iff: "is_string v \<longleftrightarrow> (\<exists>s. v = Some (JString s))"
  by (auto simp add: is_string_def split: option.splits json.splits)

lemma required_str_string:
  "map_of kvs k = Some (JString s) \<Longrightarrow> required_str P kvs k = Some s"
  by (simp add: required_str_def str_validate_def)

lemma conforms_valid:
  assumes "listing_conforms item" and "listing_kwarg_free P item" and "listing_encodable item"
  shows "\<exists>l. ReraListing_validate P item = Some l \<and> ReraListing_json l = declared_fields item \<and>
             listing_serialisable l"
proof -
  from assms(1) obtain kvs where item: "item = JObject kvs"
    by (cases item) (simp_all add: listing_conforms_def)
  from assms(1) item obtain a b c d where
    f: "map_of kvs (u ''project_name'') = Some (JString a)"
       "map_of kvs (u ''developer'') = Some (JString b)"
       "map_of kvs (u ''details'') = Some (JString c)"
       "map_of kvs (u ''source_url'') = Some (JString d)"
    unfolding listing_conforms_def required_fields_def is_string_iff by auto
  have nc: "\<not> kwarg_clash P kvs" using assms(2) item by (simp add: listing_kwarg_free_def)
  have "ReraListing_validate P item =
          Some \<lparr>project_name = a, developer = b, details = c, source_url = d\<rparr>"
    using f item nc by (simp add: ReraListing_validate_def as_mapping_def required_str_string)
  moreover have "ReraListing_json \<lparr>project_name = a, developer = b, details = c, source_url = d\<rparr>
                   = declared_fields item"
    using f item by (simp add: ReraListing_json_def declared_fields_def required_fields_def)
  moreover have "listing_serialisable \<lparr>project_name = a, developer = b, details = c, source_url = d\<rparr>"
    using assms(3) f item
    by (simp add: listing_encodable_def listing_serialisable_def required_fields_def)
  ultimately show ?thesis by simp
qed

lemma response_conforms_iff:
  "response_conforms data \<longleftrightarrow>
     (\<exists>kvs items. data = JObject kvs \<and> map_of kvs (u ''listings'') = Some (JArray items) \<and>
        list_all listing_conforms items)"
proof (cases data)
  case (JObject kvs)
  show ?thesis
  proof (cases "map_of kvs (u ''listings'')")
    case None
    with JObject show ?thesis by (simp add: response_conforms_def)
  next
    case (Some l)
    with JObject show ?thesis by (cases l) (simp_all add: response_conforms_def)
  qed
qed (simp_all add: response_conforms_def)

lemma those_all_Some:
  "list_all (\<lambda>x. \<exists>y. f x = Some y \<and> g y = h x \<and> Q y) xs \<Longrightarrow>
   \<exists>ys. those (map f xs) = Some ys \<and> map g ys = map h xs \<and> list_all Q ys"
  by (induction xs) auto

lemma conforming_accepted:
  assumes "response_conforms data" and "kwarg_free P data" and "response_encodable data"
  shows "\<exists>r. ReraResponse_init P data = Inr r \<and> ReraResponse_json r = declared_response data \<and>
             serialisable r"
proof -
  from assms(1) obtain kvs items where d: "data = JObject kvs"
    and l: "map_of kvs (u ''listings'') = Some (JArray items)"
    and a: "list_all listing_conforms items"
    unfolding response_conforms_iff by blast
  have nc: "\<not> kwarg_clash P kvs" and kf: "list_all (listing_kwarg_free P) items"
    using assms(2) d l by (simp_all add: kwarg_free_def)
  have en: "list_all listing_encodable items"
    using assms(3) d l by (simp add: response_encodable_def)
  from a kf en have "list_all (\<lambda>x. \<exists>y. ReraListing_validate P x = Some y \<and>
                   ReraListing_json y = declared_fields x \<and> listing_serialisable y) items"
    unfolding list_all_iff using conforms_valid by blast
  then obtain ls where "those (map (ReraListing_validate P) items) = Some ls"
    and "map ReraListing_json ls = map declared_fields items"
    and "list_all listing_serialisable ls"
    using those_all_Some by blast
  with d l nc show ?thesis
    by (simp add: ReraResponse_init_def ReraResponse_json_def declared_response_def
        serialisable_def)
qed

text \<open>A reply without a fence in it is parsed as it is.\<close>

lemma loads_sanitized:
  assumes "json_loads (cleaned_response_text reply) = Some data
           \<or> (\<not> contains fence reply \<and> json_loads reply = Some data)"
  shows "json_loads (cleaned_response_text reply) = Some data"
proof (cases "json_loads (cleaned_response_text reply) = Some data")
  case True
  then show ?thesis .
next
  case False
  with assms have nf: "\<not> contains fence reply" and l: "json_loads reply = Some data" by simp_all
  show ?thesis using sanitize_clean[OF nf] loads_strip[OF l] by simp
qed

subsection \<open>Evaluation of the concrete replies\<close>

lemma erode_reply_clean: "cleaned_response_text erode_reply = erode_reply"
  by (simp add: erode_reply_def sanitize_defs u_def)

lemma erode_reply_loads: "json_loads erode_reply = Some erode_json"
  by (simp add: erode_reply_def erode_json_def json_loads_def u_def scan_defs)

lemma erode_json_init: "ReraResponse_init P erode_json = Inr erode_listings"
  by (simp add: erode_json_def erode_listings_def ReraResponse_init_def ReraListing_validate_def
      as_mapping_def required_str_def str_validate_def kwarg_clash_def u_def)

lemma erode_listings_serialisable: "serialisable erode_listings"
  by (simp add: erode_listings_def serialisable_def listing_serialisable_def encodable_def u_def)

lemma erode_listings_json: "ReraResponse_json erode_listings = erode_json"
  by (simp add: ReraResponse_json_def ReraListing_json_def erode_listings_def erode_json_def)

lemma partial_reply_loads: "json_loads partial_reply = Some partial_json"
  by (simp add: partial_reply_def partial_json_def json_loads_def u_def scan_defs)

lemma partial_reply_no_fence: "\<not> contains fence partial_reply"
  by (simp add: partial_reply_def fence_def u_def)

lemma partial_json_missing: "missing_required_field partial_json"
  by (simp add: partial_json_def missing_required_field_def listing_lacks_field_def
      required_fields_def u_def)

lemma extras_reply_loads: "json_loads extras_reply = Some extras_json"
  by (simp add: extras_reply_def extras_json_def json_loads_def u_def scan_defs)

lemma extras_reply_no_fence: "\<not> contains fence extras_reply"
  by (simp add: extras_reply_def fence_def u_def)

lemma extras_reply_clean: "cleaned_response_text extras_reply = extras_reply"
  by (simp add: extras_reply_def sanitize_defs u_def)

lemma extras_reply_within: "within_limits default_limits (cleaned_response_text extras_reply)"
  unfolding extras_reply_clean
  by (simp add: extras_reply_def within_limits_def default_limits_def digits_within_def
      integer_literal_def u_def scan_defs)

lemma extras_json_conforms: "response_conforms extras_json"
  by (simp add: extras_json_def response_conforms_def listing_conforms_def required_fields_def
      is_string_def u_def)

lemma extras_json_encodable: "response_encodable extras_json"
  by (simp add: extras_json_def response_encodable_def listing_encodable_def required_fields_def
      encodable_def u_def)

lemma extras_json_kwarg_free: "kwarg_free pydantic_strict extras_json"
  by (simp add: extras_json_def kwarg_free_def listing_kwarg_free_def kwarg_clash_def
      pydantic_strict_def u_def)

lemma extras_json_declared: "declared_response extras_json = erode_json"
  by (simp add: extras_json_def erode_json_def declared_response_def declared_fields_def
      required_fields_def u_def)

lemma extras_json_init: "ReraResponse_init pydantic_strict extras_json = Inr erode_listings"
  by (simp add: extras_json_def erode_listings_def ReraResponse_init_def ReraListing_validate_def
      as_mapping_def required_str_def str_validate_def kwarg_clash_def pydantic_strict_def u_def)

lemma empty_reply_loads: "json_loads (cleaned_response_text empty_reply) = Some empty_json"
  by (simp add: empty_reply_def empty_text_def empty_json_def sanitize_defs json_loads_def
      u_def scan_defs)

lemma fence_key_reply_loads: "json_loads fence_key_reply = Some fence_key_json"
  by (simp add: fence_key_reply_def fence_key_json_def json_loads_def u_def scan_defs)

lemma fence_key_reply_clean: "cleaned_response_text fence_key_reply = erode_reply"
  by (simp add: fence_key_reply_def erode_reply_def sanitize_defs u_def)

lemma fence_key_json_missing: "missing_required_field fence_key_json"
  by (simp add: fence_key_json_def missing_required_field_def listing_lacks_field_def
      required_fields_def u_def)

lemma fence_extra_reply_loads: "json_loads fence_extra_reply = Some fence_extra_json"
  by (simp add: fence_extra_reply_def fence_extra_json_def json_loads_def u_def scan_defs)

lemma fence_extra_json_conforms: "response_conforms fence_extra_json"
  by (simp add: fence_extra_json_def response_conforms_def listing_conforms_def
      required_fields_def is_string_def u_def)

lemma fence_extra_reply_sanitized:
  "json_loads (cleaned_response_text fence_extra_reply) =
     Some (JObject [(u ''listings'', JArray [JObject
       [(u ''project_name'', JString (u ''X'')), (u ''developer'', JString (u ''Y'')),
        (u ''details'', JString (u ''Z'')), (u ''source_url'', JArray [])]])])"
  by (simp add: fence_extra_reply_def sanitize_defs json_loads_def u_def scan_defs)

lemma fence_extra_rejected:
  "snd (try_block pydantic_strict environ_with_key (reply_with fence_extra_reply) place_request)
     = Inl ValidationError"
  by (simp add: try_block_def environ_with_key_def reply_with_def fence_extra_reply_sanitized
      ReraResponse_init_def ReraListing_validate_def as_mapping_def required_str_def
      str_validate_def kwarg_clash_def pydantic_strict_def no_str_coercion_def u_def)

subsection \<open>Properties of the endpoint\<close>




text \<open>
  C3. A model reply whose sanitized text parses as JSON but lacks a required field (no
  \<^verbatim>\<open>listings\<close>, or a listing object without one of its four fields) is answered with status
  500 and the fixed detail message: no part of the reply is returned. That is so for every
  reply without a fence marker in it that parses as JSON and lacks a required field.
\<close>

theorem missing_field_is_500:
  assumes "gen (RERA_PROMPT_format (address request) (schema_text P)) = Inr reply"
      and "json_loads (cleaned_response_text reply) = Some data
           \<or> (\<not> contains fence reply \<and> json_loads reply = Some data)"
      and "missing_required_field data"
  shows "snd (endpoint P env gen request) = \<lparr>status_code = 500, content = Detail error_detail\<rparr>"
proof -
  have l: "json_loads (cleaned_response_text reply) = Some data"
    using assms(2) by (rule loads_sanitized)
  obtain e where e: "ReraResponse_init P data = Inl e"
    using missing_field_rejected[OF assms(3)] by blast
  have "\<exists>e'. snd (try_block P env gen request) = Inl e'"
    using assms(1) l e by (simp add: try_block_def)
  then show ?thesis using raised_generic generic_error_def by metis
qed

theorem missing_field_is_500_witness:
  "reply_with partial_reply (RERA_PROMPT_format (address place_request) (schema_text pydantic_strict))
     = Inr partial_reply \<and>
   \<not> contains fence partial_reply \<and>
   json_loads partial_reply = Some partial_json \<and>
   missing_required_field partial_json \<and>
   snd (endpoint pydantic_strict environ_with_key (reply_with partial_reply) place_request)
     = \<lparr>status_code = 500, content = Detail error_detail\<rparr>"
  using missing_field_is_500 [of "reply_with partial_reply" place_request pydantic_strict
      partial_reply partial_json environ_with_key]
  by (simp add: reply_with_def partial_reply_loads partial_reply_no_fence partial_json_missing)

text \<open>
  As stated for the reply itself the property fails: a reply that lacks \<^verbatim>\<open>source_url\<close> and
  has a key that turns into it when the fence marker is removed is answered with status 200.
\<close>

theorem fence_in_key_counterexample:
  "json_loads fence_key_reply = Some fence_key_json \<and>
   missing_required_field fence_key_json \<and>
   snd (endpoint pydantic_strict environ_with_key (reply_with fence_key_reply) place_request)
     = \<lparr>status_code = 200, content = Model erode_listings\<rparr>"
proof -
  have "snd (try_block pydantic_strict environ_with_key (reply_with fence_key_reply) place_request)
          = Inr erode_listings"
    by (simp add: try_block_def environ_with_key_def reply_with_def fence_key_reply_clean
        erode_reply_loads erode_json_init)
  hence "snd (endpoint pydantic_strict environ_with_key (reply_with fence_key_reply) place_request)
          = \<lparr>status_code = 200, content = Model erode_listings\<rparr>"
    using erode_listings_serialisable by (rule returned_ok)
  then show ?thesis by (simp add: fence_key_reply_loads fence_key_json_missing)
qed



text \<open>
  C5. Whatever is raised in the handler - the missing key at the configuration check, any
  exception of the model call, a reply that is not JSON, a reply that fails schema
  validation - the answer is status 500 with the one fixed detail message; nothing of the
  exception is in it.
\<close>

theorem every_exception_is_generic_500:
  assumes "env (u ''GEMINI_API_KEY'') = None
           \<or> (\<exists>e. gen (RERA_PROMPT_format (address request) (schema_text P)) = Inl e)
           \<or> (\<exists>reply. gen (RERA_PROMPT_format (address request) (schema_text P)) = Inr reply \<and>
                 (json_loads (cleaned_response_text reply) = None
                  \<or> (\<exists>data e. json_loads (cleaned_response_text reply) = Some data \<and>
                        ReraResponse_init P data = Inl e)))"
  shows "snd (endpoint P env gen request) = \<lparr>status_code = 500, content = Detail error_detail\<rparr>"
proof -
  have "\<exists>e. snd (try_block P env gen request) = Inl e"
    using assms by (auto simp add: try_block_def)
  then show ?thesis using raised_generic generic_error_def by metis
qed

theorem every_exception_is_generic_500_witness:
  "raise_with leaky_exception (RERA_PROMPT_format (address place_request) (schema_text pydantic_strict))
     = Inl leaky_exception \<and>
   snd (endpoint pydantic_strict environ_with_key (raise_with leaky_exception) place_request)
     = \<lparr>status_code = 500,
        content = Detail (u ''An error occurred while communicating with the AI model.'')\<rparr>"
  using every_exception_is_generic_500 [of environ_with_key "raise_with leaky_exception"
      place_request pydantic_strict]
  by (simp add: raise_with_def error_detail_def)

text \<open>
  C6. A model reply whose sanitized text parses, within the limits of the interpreter, to
  JSON with every required field present and a string without a lone surrogate, and with
  further fields at the top level or in the listing objects that the constructor of the
  model can take, is answered with status 200; the response is the reply without the
  further fields. That is so for every such reply without a fence marker in it.
\<close>

theorem extra_fields_ignored:
  assumes "env (u ''GEMINI_API_KEY'') = Some key"
      and "gen (RERA_PROMPT_format (address request) (schema_text P)) = Inr reply"
      and "json_loads (cleaned_response_text reply) = Some data
           \<or> (\<not> contains fence reply \<and> json_loads reply = Some data)"
      and "within_limits I (cleaned_response_text reply)"
      and "response_conforms data"
      and "response_encodable data"
      and "kwarg_free P data"
  shows "\<exists>r. snd (endpoint P env gen request) = \<lparr>status_code = 200, content = Model r\<rparr> \<and>
             ReraResponse_json r = declared_response data"
proof -
  have l: "json_loads (cleaned_response_text reply) = Some data"
    using assms(3) by (rule loads_sanitized)
  obtain r where r: "ReraResponse_init P data = Inr r"
      "ReraResponse_json r = declared_response data" "serialisable r"
    using conforming_accepted[OF assms(5,7,6)] by blast
  have "snd (try_block P env gen request) = Inr r"
    using assms(1,2) l r(1) by (simp add: try_block_def)
  then show ?thesis using returned_ok r(2,3) by blast
qed

theorem extra_fields_ignored_witness:
  "environ_with_key (u ''GEMINI_API_KEY'') = Some (u ''secret-key'') \<and>
   reply_with extras_reply (RERA_PROMPT_format (address place_request) (schema_text pydantic_strict))
     = Inr extras_reply \<and>
   \<not> contains fence extras_reply \<and>
   json_loads extras_reply = Some extras_json \<and>
   within_limits default_limits (cleaned_response_text extras_reply) \<and>
   response_conforms extras_json \<and>
   response_encodable extras_json \<and>
   kwarg_free pydantic_strict extras_json \<and>
   snd (endpoint pydantic_strict environ_with_key (reply_with extras_reply) place_request)
     = \<lparr>status_code = 200, content = Model erode_listings\<rparr> \<and>
   ReraResponse_json erode_listings = declared_response extras_json"
proof -
  have "snd (try_block pydantic_strict environ_with_key (reply_with extras_reply) place_request)
          = Inr erode_listings"
    by (simp add: try_block_def environ_with_key_def reply_with_def extras_reply_clean
        extras_reply_loads extras_json_init)
  hence e: "snd (endpoint pydantic_strict environ_with_key (reply_with extras_reply) place_request)
             = \<lparr>status_code = 200, content = Model erode_listings\<rparr>"
    using erode_listings_serialisable by (rule returned_ok)
  show ?thesis
    using extra_fields_ignored [of environ_with_key "u ''secret-key''" "reply_with extras_reply"
        place_request pydantic_strict extras_reply extras_json default_limits] e
    by (simp add: environ_with_key_def reply_with_def extras_reply_loads extras_reply_no_fence
        extras_reply_within extras_json_conforms extras_json_encodable extras_json_kwarg_free
        extras_json_declared erode_listings_json)
qed

text \<open>
  As stated for the reply itself the property fails: a reply with every required field and
  a further key that turns into \<^verbatim>\<open>source_url\<close> when the fence marker is removed is answered
  with status 500.
\<close>

theorem fence_in_extra_key_counterexample:
  "json_loads fence_extra_reply = Some fence_extra_json \<and>
   response_conforms fence_extra_json \<and>
   snd (endpoint pydantic_strict environ_with_key (reply_with fence_extra_reply) place_request)
     = \<lparr>status_code = 500, content = Detail error_detail\<rparr>"
  using raised_generic[OF fence_extra_rejected]
  by (simp add: fence_extra_reply_loads fence_extra_json_conforms generic_error_def)

text \<open>
  C7. With the address "Erode, Tamil Nadu" and the model reply
  \<^verbatim>\<open>{"listings":[{"project_name":"X","developer":"Y","details":"Z","source_url":"http://a"}]}\<close>
  the endpoint answers with status 200 and exactly that structure under \<^verbatim>\<open>listings\<close>: the one
  listing, the same field values, the same order.
\<close>

theorem erode_end_to_end:
  assumes "env (u ''GEMINI_API_KEY'') = Some key"
      and "gen (RERA_PROMPT_format (u ''Erode, Tamil Nadu'') (schema_text P)) = Inr erode_reply"
  shows "snd (post_find_rera_listings P env gen erode_body)
           = \<lparr>status_code = 200, content = Model erode_listings\<rparr> \<and>
         ReraResponse_json erode_listings = erode_json \<and>
         json_loads erode_reply = Some erode_json"
proof -
  have "snd (try_block P env gen \<lparr>address = u ''Erode, Tamil Nadu''\<rparr>) = Inr erode_listings"
    using assms by (simp add: try_block_def erode_reply_clean erode_reply_loads erode_json_init)
  hence "snd (endpoint P env gen \<lparr>address = u ''Erode, Tamil Nadu''\<rparr>)
           = \<lparr>status_code = 200, content = Model erode_listings\<rparr>"
    using erode_listings_serialisable by (rule returned_ok)
  then show ?thesis
    using post_valid[OF validate_address] erode_reply_loads erode_listings_json
    by (simp add: erode_body_def)
qed

theorem erode_end_to_end_witness:
  "environ_with_key (u ''GEMINI_API_KEY'') = Some (u ''secret-key'') \<and>
   reply_with erode_reply (RERA_PROMPT_format (u ''Erode, Tamil Nadu'') (schema_text pydantic_strict))
     = Inr erode_reply \<and>
   snd (post_find_rera_listings pydantic_strict environ_with_key (reply_with erode_reply) erode_body)
     = \<lparr>status_code = 200, content = Model erode_listings\<rparr>"
  using erode_end_to_end [of environ_with_key "u ''secret-key''" "reply_with erode_reply"
      pydantic_strict]
  by (simp add: environ_with_key_def reply_with_def)




text \<open>
  C10. An empty list of listings is a success: when the sanitized model reply parses to
  \<^verbatim>\<open>{"listings": []}\<close> the endpoint answers with status 200 and the body \<^verbatim>\<open>{"listings": []}\<close>.
\<close>

theorem empty_listings_success:
  assumes "env (u ''GEMINI_API_KEY'') = Some key"
      and "gen (RERA_PROMPT_format (address request) (schema_text P)) = Inr reply"
      and "json_loads (cleaned_response_text reply) = Some (JObject [(u ''listings'', JArray [])])"
  shows "snd (endpoint P env gen request) = \<lparr>status_code = 200, content = Model \<lparr>listings = []\<rparr>\<rparr> \<and>
         ReraResponse_json \<lparr>listings = []\<rparr> = JObject [(u ''listings'', JArray [])]"
proof -
  have "\<not> kwarg_clash P [(u ''listings'', JArray [])]"
    by (simp add: kwarg_clash_def u_def)
  hence "snd (try_block P env gen request) = Inr \<lparr>listings = []\<rparr>"
    using assms by (simp add: try_block_def ReraResponse_init_def)
  moreover have "serialisable \<lparr>listings = []\<rparr>" by (simp add: serialisable_def)
  ultimately show ?thesis using returned_ok by (simp add: ReraResponse_json_def)
qed

theorem empty_listings_success_witness:
  "environ_with_key (u ''GEMINI_API_KEY'') = Some (u ''secret-key'') \<and>
   reply_with empty_reply (RERA_PROMPT_format (address place_request) (schema_text pydantic_strict))
     = Inr empty_reply \<and>
   json_loads (cleaned_response_text empty_reply) = Some (JObject [(u ''listings'', JArray [])]) \<and>
   snd (endpoint pydantic_strict environ_with_key (reply_with empty_reply) place_request)
     = \<lparr>status_code = 200, content = Model \<lparr>listings = []\<rparr>\<rparr>"
  using empty_listings_success [of environ_with_key "u ''secret-key''" "reply_with empty_reply"
      place_request pydantic_strict empty_reply] empty_reply_loads
  by (simp add: environ_with_key_def reply_with_def empty_json_def)

section \<open>The client handler\<close>

lemma conforming_listings:
  "response_conforms data \<Longrightarrow> \<exists>l. get_listings data = Some l \<and> typed_listings l"
  unfolding response_conforms_iff by (auto simp add: get_listings_def typed_listings_def)

text \<open>
  C9. One invocation of the analyze handler with a non-empty selected address: before the
  request is awaited the busy flag is set and the previous listings and error are cleared;
  exactly one request is issued; after settlement the busy flag is cleared and the state is
  either the \<^verbatim>\<open>listings\<close> member of the response with no error, or the fixed error string with
  the listings still cleared. The stored listings are an array of listing objects whenever
  the response body has the shape of the backend's success response.
\<close>

theorem handleAnalyze_settles:
  assumes "selectedPlace st \<noteq> []"
  shows "handleAnalyze_begin st = ([Fetch (analyze_request st)], snd (handleAnalyze_begin st)) \<and>
         isAnalyzing (snd (handleAnalyze_begin st)) \<and>
         error_state (snd (handleAnalyze_begin st)) = None \<and>
         listings_state (snd (handleAnalyze_begin st)) = Value (JArray []) \<and>
         length (filter is_fetch (fst (handleAnalyze net st))) = 1 \<and>
         \<not> isAnalyzing (snd (handleAnalyze net st)) \<and>
         ((error_state (snd (handleAnalyze net st)) = None \<and>
           (\<exists>data. net (analyze_request st) = Response True (Some data) \<and>
                   get_listings data = Some (listings_state (snd (handleAnalyze net st)))))
          \<or> (error_state (snd (handleAnalyze net st)) = Some fetch_failed_message \<and>
              listings_state (snd (handleAnalyze net st)) = Value (JArray []))) \<and>
         (\<forall>data. net (analyze_request st) = Response True (Some data) \<and> response_conforms data
            \<longrightarrow> error_state (snd (handleAnalyze net st)) = None \<and>
                typed_listings (listings_state (snd (handleAnalyze net st))))"
proof -
  have shape: "\<forall>data. net (analyze_request st) = Response True (Some data) \<and>
                 response_conforms data
            \<longrightarrow> error_state (snd (handleAnalyze net st)) = None \<and>
                typed_listings (listings_state (snd (handleAnalyze net st)))"
  proof (intro allI impI)
    fix data
    assume a: "net (analyze_request st) = Response True (Some data) \<and> response_conforms data"
    then obtain l where l: "get_listings data = Some l" "typed_listings l"
      using conforming_listings by blast
    with a assms show "error_state (snd (handleAnalyze net st)) = None \<and>
                typed_listings (listings_state (snd (handleAnalyze net st)))"
      by (simp add: handleAnalyze_def handleAnalyze_begin_def handleAnalyze_settle_def)
  qed
  have rest: "handleAnalyze_begin st = ([Fetch (analyze_request st)], snd (handleAnalyze_begin st)) \<and>
         isAnalyzing (snd (handleAnalyze_begin st)) \<and>
         error_state (snd (handleAnalyze_begin st)) = None \<and>
         listings_state (snd (handleAnalyze_begin st)) = Value (JArray []) \<and>
         length (filter is_fetch (fst (handleAnalyze net st))) = 1 \<and>
         \<not> isAnalyzing (snd (handleAnalyze net st)) \<and>
         ((error_state (snd (handleAnalyze net st)) = None \<and>
           (\<exists>data. net (analyze_request st) = Response True (Some data) \<and>
                   get_listings data = Some (listings_state (snd (handleAnalyze net st)))))
          \<or> (error_state (snd (handleAnalyze net st)) = Some fetch_failed_message \<and>
              listings_state (snd (handleAnalyze net st)) = Value (JArray [])))"
    using assms
    by (auto simp add: handleAnalyze_def handleAnalyze_begin_def handleAnalyze_settle_def
        catch_finally_def is_fetch_def
        split: fetch_outcome.splits option.splits)
  from rest shape show ?thesis by blast
qed

theorem handleAnalyze_settles_witness:
  "selectedPlace stale_state \<noteq> [] \<and>
   handleAnalyze backend_empty stale_state
   = ([Fetch \<lparr>url = BACKEND_URL, http_method = u ''POST'', content_type = u ''application/json'',
              json_body = JObject [(u ''address'', JString (u ''Erode''))]\<rparr>],
      \<lparr>selectedPlace = u ''Erode'', isAnalyzing = False,
       listings_state = Value (JArray []), error_state = None\<rparr>)"
  using handleAnalyze_settles [of stale_state backend_empty]
  by (simp add: stale_state_def backend_empty_def u_def handleAnalyze_def handleAnalyze_begin_def
      handleAnalyze_settle_def analyze_request_def get_listings_def)

text \<open>
  As stated for every settlement the property fails: a successful response without the
  member \<^verbatim>\<open>listings\<close> leaves \<^verbatim>\<open>undefined\<close> in the state, with no error set.
\<close>

theorem untyped_listings_counterexample:
  "listings_state (snd (handleAnalyze backend_no_listings stale_state)) = Undefined \<and>
   \<not> typed_listings (listings_state (snd (handleAnalyze backend_no_listings stale_state))) \<and>
   error_state (snd (handleAnalyze backend_no_listings stale_state)) = None"
  by (simp add: stale_state_def backend_no_listings_def u_def handleAnalyze_def
      handleAnalyze_begin_def handleAnalyze_settle_def get_listings_def typed_listings_def)

end
